theory Spec2Isabelle
  imports Complex_Main "HOL-Library.Sublist"
begin

section \<open>Python and NumPy values\<close>

text \<open>
  The module \<^verbatim>\<open>mkt.py\<close> has one function, \<^verbatim>\<open>test(t, x, precx, alpha, Ha)\<close>.
  It raises through \<^verbatim>\<open>assert\<close>, through NumPy indexing and broadcasting, and through
  reading a local name that no branch has bound. Each of these is a value here.
\<close>

datatype py_error =
    AssertionError string
  | IndexError
  | ValueError
  | TypeError
  | OverflowError
  | UnboundLocalError string

text \<open>
  A NumPy float is a real number, an infinity or NaN. Measurements, times, \<^verbatim>\<open>precx\<close> and
  \<^verbatim>\<open>alpha\<close> are finite and taken as reals (rounding is not modelled); the special values
  are kept where the code can produce them: \<^verbatim>\<open>np.sqrt\<close> of a negative number and
  \<^verbatim>\<open>0/0\<close> are NaN, \<^verbatim>\<open>a/0\<close> is an infinity, and NumPy only warns there.
  Every zero divisor of the program is a square root or a count, so it is \<open>+0\<close>.
\<close>

datatype npfloat = NaN | NegInf | Fin real | PosInf

fun np_neg :: "npfloat \<Rightarrow> npfloat" where
  "np_neg NaN = NaN"
| "np_neg NegInf = PosInf"
| "np_neg (Fin a) = Fin (- a)"
| "np_neg PosInf = NegInf"

fun np_fabs :: "npfloat \<Rightarrow> npfloat" where
  "np_fabs NaN = NaN"
| "np_fabs NegInf = PosInf"
| "np_fabs (Fin a) = Fin \<bar>a\<bar>"
| "np_fabs PosInf = PosInf"

fun np_le :: "npfloat \<Rightarrow> npfloat \<Rightarrow> bool" where
  "np_le NaN b = False"
| "np_le a NaN = False"
| "np_le NegInf b = True"
| "np_le a PosInf = True"
| "np_le (Fin a) (Fin b) = (a \<le> b)"
| "np_le (Fin a) NegInf = False"
| "np_le PosInf b = False"

definition np_ge :: "npfloat \<Rightarrow> npfloat \<Rightarrow> bool" where
  "np_ge a b = np_le b a"

fun np_add :: "npfloat \<Rightarrow> npfloat \<Rightarrow> npfloat" where
  "np_add NaN b = NaN"
| "np_add a NaN = NaN"
| "np_add (Fin a) (Fin b) = Fin (a + b)"
| "np_add PosInf NegInf = NaN"
| "np_add NegInf PosInf = NaN"
| "np_add PosInf b = PosInf"
| "np_add a PosInf = PosInf"
| "np_add NegInf b = NegInf"
| "np_add a NegInf = NegInf"

definition np_sub :: "npfloat \<Rightarrow> npfloat \<Rightarrow> npfloat" where
  "np_sub a b = np_add a (np_neg b)"

definition inf_of_sign :: "real \<Rightarrow> npfloat" where
  "inf_of_sign s = (if 0 < s then PosInf else if s < 0 then NegInf else NaN)"

fun np_mul :: "npfloat \<Rightarrow> npfloat \<Rightarrow> npfloat" where
  "np_mul NaN b = NaN"
| "np_mul a NaN = NaN"
| "np_mul (Fin a) (Fin b) = Fin (a * b)"
| "np_mul (Fin a) PosInf = inf_of_sign a"
| "np_mul (Fin a) NegInf = inf_of_sign (- a)"
| "np_mul PosInf (Fin b) = inf_of_sign b"
| "np_mul NegInf (Fin b) = inf_of_sign (- b)"
| "np_mul PosInf PosInf = PosInf"
| "np_mul NegInf NegInf = PosInf"
| "np_mul PosInf NegInf = NegInf"
| "np_mul NegInf PosInf = NegInf"

fun np_div :: "npfloat \<Rightarrow> npfloat \<Rightarrow> npfloat" where
  "np_div NaN b = NaN"
| "np_div a NaN = NaN"
| "np_div (Fin a) (Fin b) = (if b = 0 then inf_of_sign a else Fin (a / b))"
| "np_div (Fin a) PosInf = Fin 0"
| "np_div (Fin a) NegInf = Fin 0"
| "np_div PosInf (Fin b) = (if 0 \<le> b then PosInf else NegInf)"
| "np_div NegInf (Fin b) = (if 0 \<le> b then NegInf else PosInf)"
| "np_div PosInf b = NaN"
| "np_div NegInf b = NaN"

fun np_sqrt :: "npfloat \<Rightarrow> npfloat" where
  "np_sqrt NaN = NaN"
| "np_sqrt NegInf = NaN"
| "np_sqrt (Fin a) = (if a < 0 then NaN else Fin (sqrt a))"
| "np_sqrt PosInf = PosInf"

fun np_clip :: "npfloat \<Rightarrow> real \<Rightarrow> real \<Rightarrow> npfloat" where
  "np_clip NaN lo hi = NaN"
| "np_clip NegInf lo hi = Fin lo"
| "np_clip (Fin a) lo hi = Fin (min hi (max lo a))"
| "np_clip PosInf lo hi = Fin hi"

text \<open>
  \<^verbatim>\<open>scipy.special.ndtr\<close> and \<^verbatim>\<open>ndtri\<close> are the standard normal distribution function
  and its inverse. They are library code: the model takes them on the reals as the
  parameters \<open>Phi\<close> and \<open>PhiInv\<close> and writes out what SciPy does at the special values.
\<close>

fun ndtr :: "(real \<Rightarrow> real) \<Rightarrow> npfloat \<Rightarrow> npfloat" where
  "ndtr Phi NaN = NaN"
| "ndtr Phi NegInf = Fin 0"
| "ndtr Phi (Fin z) = Fin (Phi z)"
| "ndtr Phi PosInf = Fin 1"

definition ndtri :: "(real \<Rightarrow> real) \<Rightarrow> real \<Rightarrow> npfloat" where
  "ndtri PhiInv y =
     (if 0 < y \<and> y < 1 then Fin (PhiInv y)
      else if y = 0 then NegInf
      else if y = 1 then PosInf
      else NaN)"

section \<open>The sign matrix and the statistic S\<close>

text \<open>\<^verbatim>\<open>tmp = x - x[i]\<close>: a new array; \<^verbatim>\<open>x[i]\<close> raises IndexError out of range.\<close>

definition diff_row :: "real list \<Rightarrow> nat \<Rightarrow> py_error + real list" where
  "diff_row x i = (if i < length x then Inr (map (\<lambda>v. v - x ! i) x) else Inl IndexError)"

text \<open>\<^verbatim>\<open>tmp[np.where(np.fabs(tmp) < precx)] = 0.\<close>\<close>

definition snap :: "real \<Rightarrow> real list \<Rightarrow> real list" where
  "snap precx tmp = map (\<lambda>d. if \<bar>d\<bar> < precx then 0 else d) tmp"

definition np_sign :: "real \<Rightarrow> int" where
  "np_sign d = (if 0 < d then 1 else if d < 0 then - 1 else 0)"

text \<open>
  \<^verbatim>\<open>sgn[i] = np.sign(tmp)\<close>: the right-hand side is broadcast into a row of length \<open>n\<close>;
  a length that is neither \<open>n\<close> nor 1 raises ValueError.
\<close>

definition assign_row :: "nat \<Rightarrow> int list \<Rightarrow> py_error + int list" where
  "assign_row n r =
     (if length r = n then Inr r
      else if length r = 1 then Inr (replicate n (hd r))
      else Inl ValueError)"

fun sgn_loop :: "real list \<Rightarrow> real \<Rightarrow> nat \<Rightarrow> nat list \<Rightarrow> int list list \<Rightarrow> py_error + int list list" where
  "sgn_loop x precx n [] sg = Inr sg"
| "sgn_loop x precx n (i # is) sg =
     (case diff_row x i of
        Inl e \<Rightarrow> Inl e
      | Inr tmp \<Rightarrow>
          (case assign_row n (map np_sign (snap precx tmp)) of
             Inl e \<Rightarrow> Inl e
           | Inr r \<Rightarrow> sgn_loop x precx n is (sg[i := r])))"

text \<open>Lines 123 to 128: \<^verbatim>\<open>n = len(t)\<close>, the zero matrix, and the loop over \<^verbatim>\<open>range(n)\<close>.\<close>

definition sgn_matrix :: "nat \<Rightarrow> real list \<Rightarrow> real \<Rightarrow> py_error + int list list" where
  "sgn_matrix n x precx = sgn_loop x precx n [0..<n] (replicate n (replicate n 0))"

text \<open>\<^verbatim>\<open>S = sgn[np.triu_indices(n, k=1)].sum()\<close>: the strict upper triangle.\<close>

definition triu_sum :: "nat \<Rightarrow> int list list \<Rightarrow> int" where
  "triu_sum n sg = sum_list (concat (map (\<lambda>i. map (\<lambda>j. sg ! i ! j) [Suc i..<n]) [0..<n]))"

definition S_stat :: "real list \<Rightarrow> real list \<Rightarrow> real \<Rightarrow> py_error + int" where
  "S_stat t x precx =
     (case sgn_matrix (length t) x precx of
        Inl e \<Rightarrow> Inl e
      | Inr sg \<Rightarrow> Inr (triu_sum (length t) sg))"

section \<open>Tie groups and the variance\<close>

text \<open>
  \<^verbatim>\<open>np.fill_diagonal(sgn, precx * 1E6)\<close>: \<^verbatim>\<open>sgn\<close> is an array of 64-bit integers, so the
  Python float is converted to an integer, truncating towards zero, and must fit into 64
  bits: a value below \<open>-2\<^sup>6\<^sup>3\<close> or from \<open>2\<^sup>6\<^sup>3\<close> on raises OverflowError, and nothing is
  written.
\<close>

definition trunc_int :: "real \<Rightarrow> int" where
  "trunc_int v = (if 0 \<le> v then \<lfloor>v\<rfloor> else \<lceil>v\<rceil>)"

definition fits_int64 :: "int \<Rightarrow> bool" where
  "fits_int64 d = (- (2 ^ 63) \<le> d \<and> d < 2 ^ 63)"

definition fill_value :: "real \<Rightarrow> py_error + int" where
  "fill_value v = (if fits_int64 (trunc_int v) then Inr (trunc_int v) else Inl OverflowError)"

definition fill_diagonal :: "nat \<Rightarrow> int list list \<Rightarrow> int \<Rightarrow> int list list" where
  "fill_diagonal n sg d = map (\<lambda>i. (sg ! i)[i := d]) [0..<n]"

text \<open>\<^verbatim>\<open>i, j = np.where(sgn == 0.)\<close>: the row index of every zero entry, in row-major order.\<close>

definition zero_rows :: "nat \<Rightarrow> int list list \<Rightarrow> nat list" where
  "zero_rows n sg = concat (map (\<lambda>i. map (\<lambda>j. i) (filter (\<lambda>j. sg ! i ! j = 0) [0..<n])) [0..<n])"

text \<open>
  \<^verbatim>\<open>ties = np.unique(x[i])\<close>: the sorted distinct values. The rows are below \<open>n\<close>, and the
  loop has read \<^verbatim>\<open>x[i]\<close> for each of them, so the index is in range.
\<close>

definition unique :: "real list \<Rightarrow> real list" where
  "unique vs = sort (remdups vs)"

definition ties_of :: "nat \<Rightarrow> real list \<Rightarrow> int list list \<Rightarrow> int \<Rightarrow> real list" where
  "ties_of n x sg d = unique (map (\<lambda>i. x ! i) (zero_rows n (fill_diagonal n sg d)))"

text \<open>\<^verbatim>\<open>q[k] = len(np.where(np.fabs(x - ties[k]) < precx)[0])\<close>\<close>

definition q_of :: "real list \<Rightarrow> real \<Rightarrow> real list \<Rightarrow> int list" where
  "q_of x precx ties = map (\<lambda>v. int (length (filter (\<lambda>u. \<bar>u - v\<bar> < precx) x))) ties"

definition term1 :: "nat \<Rightarrow> int" where
  "term1 n = int n * (int n - 1) * (2 * int n + 5)"

definition term2 :: "int list \<Rightarrow> int" where
  "term2 q = sum_list (map (\<lambda>k. k * (k - 1) * (2 * k + 5)) q)"

definition varS_of :: "nat \<Rightarrow> int list \<Rightarrow> real" where
  "varS_of n q = real_of_int (term1 n - term2 q) / 18"

section \<open>Z-score, verdict, fit and p-value\<close>

text \<open>
  Lines 150 to 155. The chain has no \<^verbatim>\<open>else\<close>: when no condition holds, \<^verbatim>\<open>Zmk\<close> stays
  unbound, which is \<open>None\<close>.
\<close>

definition Zmk_of :: "int \<Rightarrow> real \<Rightarrow> real \<Rightarrow> npfloat option" where
  "Zmk_of S precx varS =
     (if real_of_int S - precx > 0 then Some (np_div (Fin (real_of_int (S - 1))) (np_sqrt (Fin varS)))
      else if real_of_int S - precx = 0 then Some (Fin 0)
      else if real_of_int S + precx < 0 then Some (np_div (Fin (real_of_int (S + 1))) (np_sqrt (Fin varS)))
      else None)"

text \<open>
  Lines 162 to 181. A recognised \<^verbatim>\<open>Ha\<close> reads \<^verbatim>\<open>Zmk\<close> (UnboundLocalError when it is
  unbound); an unrecognised one leaves \<^verbatim>\<open>MK\<close> unbound.
\<close>

definition verdict :: "(real \<Rightarrow> real) \<Rightarrow> string \<Rightarrow> real \<Rightarrow> npfloat option \<Rightarrow> py_error + string option" where
  "verdict PhiInv Ha alpha Zo =
     (if Ha = ''up'' then
        (case Zo of
           None \<Rightarrow> Inl (UnboundLocalError ''Zmk'')
         | Some Z \<Rightarrow>
             if np_ge Z (ndtri PhiInv (1 - alpha)) then Inr (Some ''accept Ha := upward trend'')
             else Inr (Some ''reject Ha := upward trend''))
      else if Ha = ''down'' then
        (case Zo of
           None \<Rightarrow> Inl (UnboundLocalError ''Zmk'')
         | Some Z \<Rightarrow>
             if np_le Z (np_neg (ndtri PhiInv (1 - alpha))) then Inr (Some ''accept Ha := downward trend'')
             else Inr (Some ''reject Ha := downward trend''))
      else if Ha = ''upordown'' then
        (case Zo of
           None \<Rightarrow> Inl (UnboundLocalError ''Zmk'')
         | Some Z \<Rightarrow>
             if np_ge (np_fabs Z) (ndtri PhiInv (1 - alpha / 2))
             then Inr (Some ''accept Ha := upward OR downward trend'')
             else Inr (Some ''reject Ha := upward OR downward trend''))
      else Inr None)"

text \<open>
  \<^verbatim>\<open>np.mean\<close>, \<^verbatim>\<open>np.std\<close> (population, \<open>ddof = 0\<close>) and \<^verbatim>\<open>np.corrcoef(t, x)[0, 1]\<close>
  (covariances with \<open>ddof = 1\<close>, a non-positive divisor replaced by \<open>0.0\<close>, divided by
  both standard deviations and clipped to \<open>[-1, 1]\<close>). \<^verbatim>\<open>np.corrcoef\<close> stacks its two
  arguments and raises ValueError when their lengths differ.
\<close>

definition mean_r :: "real list \<Rightarrow> real" where
  "mean_r xs = sum_list xs / real (length xs)"

definition np_mean :: "real list \<Rightarrow> npfloat" where
  "np_mean xs = np_div (Fin (sum_list xs)) (Fin (real (length xs)))"

definition dev :: "real list \<Rightarrow> real list" where
  "dev xs = map (\<lambda>v. v - mean_r xs) xs"

definition np_std :: "real list \<Rightarrow> npfloat" where
  "np_std xs = np_sqrt (np_div (Fin (sum_list (map (\<lambda>d. \<bar>d\<bar> ^ 2) (dev xs)))) (Fin (real (length xs))))"

definition np_cov :: "real list \<Rightarrow> real list \<Rightarrow> npfloat" where
  "np_cov a b =
     np_mul (Fin (sum_list (map (\<lambda>(u, v). u * v) (zip (dev a) (dev b)))))
       (np_div (Fin 1) (Fin (if real (length a) - 1 \<le> 0 then 0 else real (length a) - 1)))"

definition np_corrcoef :: "real list \<Rightarrow> real list \<Rightarrow> py_error + npfloat" where
  "np_corrcoef a b =
     (if length a \<noteq> length b then Inl ValueError
      else Inr (np_clip (np_div (np_div (np_cov a b) (np_sqrt (np_cov a a))) (np_sqrt (np_cov b b)))
                  (- 1) 1))"

text \<open>Lines 187 and 188: slope \<^verbatim>\<open>m\<close> and intercept \<^verbatim>\<open>c\<close>.\<close>

definition linear_fit :: "real list \<Rightarrow> real list \<Rightarrow> py_error + npfloat \<times> npfloat" where
  "linear_fit t x =
     (case np_corrcoef t x of
        Inl e \<Rightarrow> Inl e
      | Inr r \<Rightarrow>
          (let m = np_mul r (np_div (np_std x) (np_std t));
               c = np_sub (np_mean x) (np_mul m (np_mean t))
           in Inr (m, c)))"

text \<open>
  Lines 194 to 209. Inside a region \<^verbatim>\<open>Zmk\<close> is bound, since the Z-score chain tests the
  same conditions; \<open>None\<close> is an unbound \<^verbatim>\<open>p\<close>.
\<close>

definition p_of :: "(real \<Rightarrow> real) \<Rightarrow> string \<Rightarrow> int \<Rightarrow> real \<Rightarrow> npfloat \<Rightarrow> npfloat option" where
  "p_of Phi Ha S precx Z =
     (if real_of_int S - precx > 0 then
        (if Ha = ''up'' then Some (np_sub (Fin 1) (ndtr Phi Z))
         else if Ha = ''down'' then Some (ndtr Phi Z)
         else if Ha = ''upordown'' then Some (np_mul (Fin (1/2)) (np_sub (Fin 1) (ndtr Phi Z)))
         else None)
      else if real_of_int S - precx = 0 then Some (Fin (1/2))
      else if real_of_int S + precx < 0 then
        (if Ha = ''up'' then Some (np_sub (Fin 1) (ndtr Phi Z))
         else if Ha = ''down'' then Some (ndtr Phi Z)
         else if Ha = ''upordown'' then Some (np_mul (Fin (1/2)) (ndtr Phi Z))
         else None)
      else None)"

section \<open>The function test\<close>

text \<open>
  The body after the three assertions: the sign loop, \<^verbatim>\<open>S\<close>, then \<^verbatim>\<open>np.fill_diagonal\<close>
  (which may raise OverflowError), the tie groups and the rest.
  \<^verbatim>\<open>return MK, m, c, p\<close> reads \<^verbatim>\<open>MK\<close> first and \<^verbatim>\<open>p\<close> last.
\<close>

definition test_body ::
  "(real \<Rightarrow> real) \<Rightarrow> (real \<Rightarrow> real) \<Rightarrow> real list \<Rightarrow> real list \<Rightarrow> real \<Rightarrow> real \<Rightarrow> string
     \<Rightarrow> py_error + string \<times> npfloat \<times> npfloat \<times> npfloat" where
  "test_body Phi PhiInv t x precx alpha Ha =
     (let n = length t in
      case sgn_matrix n x precx of
        Inl e \<Rightarrow> Inl e
      | Inr sg \<Rightarrow>
          (let S = triu_sum n sg in
           case fill_value (precx * 1000000) of
             Inl e \<Rightarrow> Inl e
           | Inr d \<Rightarrow>
               (let q = q_of x precx (ties_of n x sg d);
                    varS = varS_of n q;
                    Zo = Zmk_of S precx varS
                in case verdict PhiInv Ha alpha Zo of
                     Inl e \<Rightarrow> Inl e
                   | Inr MKo \<Rightarrow>
                       (case linear_fit t x of
                          Inl e \<Rightarrow> Inl e
                        | Inr (m, c) \<Rightarrow>
                            (case MKo of
                               None \<Rightarrow> Inl (UnboundLocalError ''MK'')
                             | Some MK \<Rightarrow>
                                 (case Zo of
                                    None \<Rightarrow> Inl (UnboundLocalError ''p'')
                                  | Some Z \<Rightarrow>
                                      (case p_of Phi Ha S precx Z of
                                         None \<Rightarrow> Inl (UnboundLocalError ''p'')
                                       | Some p \<Rightarrow> Inr (MK, m, c, p))))))))"

text \<open>
  Lines 118 to 120: \<^verbatim>\<open>assert precx\<close>, \<^verbatim>\<open>assert alpha\<close>, \<^verbatim>\<open>assert Ha\<close>. The three
  parameters default to \<^verbatim>\<open>None\<close>; an assertion fails on \<^verbatim>\<open>None\<close>, on the number zero and
  on the empty string, and on nothing else. The error carries the name of the parameter
  the failed assertion asks for.
\<close>

definition test ::
  "(real \<Rightarrow> real) \<Rightarrow> (real \<Rightarrow> real) \<Rightarrow> real list \<Rightarrow> real list \<Rightarrow> real option \<Rightarrow> real option
     \<Rightarrow> string option \<Rightarrow> py_error + string \<times> npfloat \<times> npfloat \<times> npfloat" where
  "test Phi PhiInv t x precx alpha Ha =
     (case precx of
        None \<Rightarrow> Inl (AssertionError ''precx'')
      | Some pr \<Rightarrow>
          if pr = 0 then Inl (AssertionError ''precx'')
          else
            (case alpha of
               None \<Rightarrow> Inl (AssertionError ''alpha'')
             | Some al \<Rightarrow>
                 if al = 0 then Inl (AssertionError ''alpha'')
                 else
                   (case Ha of
                      None \<Rightarrow> Inl (AssertionError ''Ha'')
                    | Some h \<Rightarrow>
                        if h = [] then Inl (AssertionError ''Ha'')
                        else test_body Phi PhiInv t x pr al h)))"

section \<open>The arrays as objects in a store\<close>

text \<open>
  NumPy arrays are mutable objects, and \<^verbatim>\<open>test\<close> receives references to the caller's
  \<^verbatim>\<open>t\<close> and \<^verbatim>\<open>x\<close>. To say what the call does to them, lines 123 to 142 are modelled a
  second time over a store: a list of arrays, a reference being an index into it. An
  expression that builds an array (\<^verbatim>\<open>x - x[i]\<close>, \<^verbatim>\<open>np.zeros\<close>, \<^verbatim>\<open>np.where\<close>,
  \<^verbatim>\<open>np.unique\<close>) puts a new object at the end of the store; an indexed assignment
  (\<^verbatim>\<open>tmp[...] = 0.\<close>, \<^verbatim>\<open>sgn[i] = ...\<close>, \<^verbatim>\<open>q[k] = ...\<close>) and \<^verbatim>\<open>np.fill_diagonal\<close> overwrite
  the object their reference points to. Unnamed temporaries (\<^verbatim>\<open>np.fabs(tmp)\<close>,
  \<^verbatim>\<open>np.sign(tmp)\<close>) are never assigned to and are left out. A reference that does not
  point to an array of the expected kind raises TypeError.
\<close>

datatype ndarray =
    FloatArr "real list"
  | IntMat "int list list"
  | IntArr "int list"
  | IndexArr "nat list"

type_synonym store = "ndarray list"

definition new_array :: "store \<Rightarrow> ndarray \<Rightarrow> store \<times> nat" where
  "new_array s a = (s @ [a], length s)"

definition float_array :: "store \<Rightarrow> nat \<Rightarrow> py_error + real list" where
  "float_array s r =
     (if r < length s then (case s ! r of FloatArr v \<Rightarrow> Inr v | _ \<Rightarrow> Inl TypeError)
      else Inl TypeError)"

definition int_matrix :: "store \<Rightarrow> nat \<Rightarrow> py_error + int list list" where
  "int_matrix s r =
     (if r < length s then (case s ! r of IntMat v \<Rightarrow> Inr v | _ \<Rightarrow> Inl TypeError)
      else Inl TypeError)"

definition int_array :: "store \<Rightarrow> nat \<Rightarrow> py_error + int list" where
  "int_array s r =
     (if r < length s then (case s ! r of IntArr v \<Rightarrow> Inr v | _ \<Rightarrow> Inl TypeError)
      else Inl TypeError)"

text \<open>
  One round of the loop of lines 125 to 128: \<^verbatim>\<open>tmp = x - x[i]\<close> (a new array),
  \<^verbatim>\<open>tmp[np.where(np.fabs(tmp) < precx)] = 0.\<close> (in place, on \<^verbatim>\<open>tmp\<close>), and
  \<^verbatim>\<open>sgn[i] = np.sign(tmp)\<close> (in place, on \<^verbatim>\<open>sgn\<close>).
\<close>

definition sgn_step :: "store \<Rightarrow> nat \<Rightarrow> nat \<Rightarrow> real \<Rightarrow> nat \<Rightarrow> nat \<Rightarrow> store \<times> (py_error + unit)" where
  "sgn_step s rx rsgn precx n i =
     (case float_array s rx of
        Inl e \<Rightarrow> (s, Inl e)
      | Inr x \<Rightarrow>
          (case diff_row x i of
             Inl e \<Rightarrow> (s, Inl e)
           | Inr d \<Rightarrow>
               (let (s1, rtmp) = new_array s (FloatArr d) in
                case float_array s1 rtmp of
                  Inl e \<Rightarrow> (s1, Inl e)
                | Inr tmp \<Rightarrow>
                    (let s2 = s1[rtmp := FloatArr (snap precx tmp)] in
                     case float_array s2 rtmp of
                       Inl e \<Rightarrow> (s2, Inl e)
                     | Inr tmp' \<Rightarrow>
                         (case assign_row n (map np_sign tmp') of
                            Inl e \<Rightarrow> (s2, Inl e)
                          | Inr r \<Rightarrow>
                              (case int_matrix s2 rsgn of
                                 Inl e \<Rightarrow> (s2, Inl e)
                               | Inr sg \<Rightarrow> (s2[rsgn := IntMat (sg[i := r])], Inr ())))))))"

fun sgn_loop_store :: "store \<Rightarrow> nat \<Rightarrow> nat \<Rightarrow> real \<Rightarrow> nat \<Rightarrow> nat list \<Rightarrow> store \<times> (py_error + unit)" where
  "sgn_loop_store s rx rsgn precx n [] = (s, Inr ())"
| "sgn_loop_store s rx rsgn precx n (i # is) =
     (case sgn_step s rx rsgn precx n i of
        (s', Inl e) \<Rightarrow> (s', Inl e)
      | (s', Inr u) \<Rightarrow> sgn_loop_store s' rx rsgn precx n is)"

text \<open>
  One round of the loop of lines 140 to 142:
  \<^verbatim>\<open>q[k] = len(np.where(np.fabs(x - ties[k]) < precx)[0])\<close>, in place on \<^verbatim>\<open>q\<close>.
\<close>

definition q_step :: "store \<Rightarrow> nat \<Rightarrow> nat \<Rightarrow> nat \<Rightarrow> real \<Rightarrow> nat \<Rightarrow> store \<times> (py_error + unit)" where
  "q_step s rx rties rq precx k =
     (case float_array s rx of
        Inl e \<Rightarrow> (s, Inl e)
      | Inr x \<Rightarrow>
          (case float_array s rties of
             Inl e \<Rightarrow> (s, Inl e)
           | Inr ties \<Rightarrow>
               if \<not> k < length ties then (s, Inl IndexError)
               else
                 (case int_array s rq of
                    Inl e \<Rightarrow> (s, Inl e)
                  | Inr q \<Rightarrow>
                      (s[rq := IntArr (q[k := int (length (filter (\<lambda>u. \<bar>u - ties ! k\<bar> < precx) x))])],
                       Inr ()))))"

fun q_loop_store :: "store \<Rightarrow> nat \<Rightarrow> nat \<Rightarrow> nat \<Rightarrow> real \<Rightarrow> nat list \<Rightarrow> store \<times> (py_error + unit)" where
  "q_loop_store s rx rties rq precx [] = (s, Inr ())"
| "q_loop_store s rx rties rq precx (k # ks) =
     (case q_step s rx rties rq precx k of
        (s', Inl e) \<Rightarrow> (s', Inl e)
      | (s', Inr u) \<Rightarrow> q_loop_store s' rx rties rq precx ks)"

text \<open>
  Lines 135 to 142 (\<^verbatim>\<open>np.fill_diagonal\<close> in place on \<^verbatim>\<open>sgn\<close>, unless the fill value
  overflows; the new arrays \<^verbatim>\<open>i\<close>, \<^verbatim>\<open>j\<close>,
  \<^verbatim>\<open>ties\<close> and \<^verbatim>\<open>q\<close>, the loop over \<^verbatim>\<open>range(p)\<close>), and then lines 123 to 142 as a whole:
  the final store, and \<^verbatim>\<open>S\<close> with the array \<^verbatim>\<open>q\<close>, or the error raised.
\<close>

definition zero_cols :: "nat \<Rightarrow> int list list \<Rightarrow> nat list" where
  "zero_cols n sg = concat (map (\<lambda>i. filter (\<lambda>j. sg ! i ! j = 0) [0..<n]) [0..<n])"

definition ties_phase :: "store \<Rightarrow> nat \<Rightarrow> nat \<Rightarrow> nat \<Rightarrow> real \<Rightarrow> int \<Rightarrow> store \<times> (py_error + int \<times> int list)" where
  "ties_phase s rx rsgn n precx S =
     (case int_matrix s rsgn of
        Inl e \<Rightarrow> (s, Inl e)
      | Inr sg \<Rightarrow>
          (case fill_value (precx * 1000000) of
             Inl e \<Rightarrow> (s, Inl e)
           | Inr d \<Rightarrow>
               (let s1 = s[rsgn := IntMat (fill_diagonal n sg d)] in
                case int_matrix s1 rsgn of
                  Inl e \<Rightarrow> (s1, Inl e)
                | Inr sg' \<Rightarrow>
                    (let (s2a, ri) = new_array s1 (IndexArr (zero_rows n sg'));
                         (s2, rj) = new_array s2a (IndexArr (zero_cols n sg'))
                     in
                     case float_array s2 rx of
                       Inl e \<Rightarrow> (s2, Inl e)
                     | Inr x \<Rightarrow>
                         (let (s3, rties) = new_array s2 (FloatArr (unique (map (\<lambda>i. x ! i) (zero_rows n sg'))));
                              p = length (unique (map (\<lambda>i. x ! i) (zero_rows n sg')));
                              (s4, rq) = new_array s3 (IntArr (replicate p 0))
                          in case q_loop_store s4 rx rties rq precx [0..<p] of
                               (s5, Inl e) \<Rightarrow> (s5, Inl e)
                             | (s5, Inr u) \<Rightarrow>
                                 (case int_array s5 rq of
                                    Inl e \<Rightarrow> (s5, Inl e)
                                  | Inr q \<Rightarrow> (s5, Inr (S, q))))))))"

definition sign_phase :: "store \<Rightarrow> nat \<Rightarrow> nat \<Rightarrow> real \<Rightarrow> store \<times> (py_error + int \<times> int list)" where
  "sign_phase s rt rx precx =
     (case float_array s rt of
        Inl e \<Rightarrow> (s, Inl e)
      | Inr t \<Rightarrow>
          (let n = length t;
               (s1, rsgn) = new_array s (IntMat (replicate n (replicate n 0)))
           in case sgn_loop_store s1 rx rsgn precx n [0..<n] of
                (s2, Inl e) \<Rightarrow> (s2, Inl e)
              | (s2, Inr u) \<Rightarrow>
                  (case int_matrix s2 rsgn of
                     Inl e \<Rightarrow> (s2, Inl e)
                   | Inr sg \<Rightarrow> ties_phase s2 rx rsgn n precx (triu_sum n sg))))"

text \<open>
  The whole call over the store. After line 142 nothing is assigned to an array: the rest
  reads \<^verbatim>\<open>t\<close> and \<^verbatim>\<open>x\<close> (\<^verbatim>\<open>np.corrcoef\<close>, \<^verbatim>\<open>np.std\<close>, \<^verbatim>\<open>np.mean\<close>) and works on scalars.
\<close>

definition test_tail ::
  "(real \<Rightarrow> real) \<Rightarrow> (real \<Rightarrow> real) \<Rightarrow> real list \<Rightarrow> real list \<Rightarrow> real \<Rightarrow> real \<Rightarrow> string \<Rightarrow> int \<Rightarrow> int list
     \<Rightarrow> py_error + string \<times> npfloat \<times> npfloat \<times> npfloat" where
  "test_tail Phi PhiInv t x precx alpha Ha S q =
     (let varS = varS_of (length t) q;
          Zo = Zmk_of S precx varS
      in case verdict PhiInv Ha alpha Zo of
           Inl e \<Rightarrow> Inl e
         | Inr MKo \<Rightarrow>
             (case linear_fit t x of
                Inl e \<Rightarrow> Inl e
              | Inr (m, c) \<Rightarrow>
                  (case MKo of
                     None \<Rightarrow> Inl (UnboundLocalError ''MK'')
                   | Some MK \<Rightarrow>
                       (case Zo of
                          None \<Rightarrow> Inl (UnboundLocalError ''p'')
                        | Some Z \<Rightarrow>
                            (case p_of Phi Ha S precx Z of
                               None \<Rightarrow> Inl (UnboundLocalError ''p'')
                             | Some p \<Rightarrow> Inr (MK, m, c, p))))))"

definition test_store ::
  "(real \<Rightarrow> real) \<Rightarrow> (real \<Rightarrow> real) \<Rightarrow> store \<Rightarrow> nat \<Rightarrow> nat \<Rightarrow> real option \<Rightarrow> real option \<Rightarrow> string option
     \<Rightarrow> store \<times> (py_error + string \<times> npfloat \<times> npfloat \<times> npfloat)" where
  "test_store Phi PhiInv s rt rx precx alpha Ha =
     (case precx of
        None \<Rightarrow> (s, Inl (AssertionError ''precx''))
      | Some pr \<Rightarrow>
          if pr = 0 then (s, Inl (AssertionError ''precx''))
          else
            (case alpha of
               None \<Rightarrow> (s, Inl (AssertionError ''alpha''))
             | Some al \<Rightarrow>
                 if al = 0 then (s, Inl (AssertionError ''alpha''))
                 else
                   (case Ha of
                      None \<Rightarrow> (s, Inl (AssertionError ''Ha''))
                    | Some h \<Rightarrow>
                        if h = [] then (s, Inl (AssertionError ''Ha''))
                        else
                          (case sign_phase s rt rx pr of
                             (s', Inl e) \<Rightarrow> (s', Inl e)
                           | (s', Inr (S, q)) \<Rightarrow>
                               (case float_array s' rt of
                                  Inl e \<Rightarrow> (s', Inl e)
                                | Inr t \<Rightarrow>
                                    (case float_array s' rx of
                                       Inl e \<Rightarrow> (s', Inl e)
                                     | Inr x \<Rightarrow> (s', test_tail Phi PhiInv t x pr al h S q)))))))"

section \<open>Derived notions used in the statements\<close>

text \<open>
  Entry \<open>(i, j)\<close> of the sign matrix that the loop builds: the sign of \<open>x\<^sub>j - x\<^sub>i\<close> after
  snapping a difference below \<^verbatim>\<open>precx\<close> to zero; and row \<open>i\<close> of that matrix.
\<close>

definition pair_sign :: "real \<Rightarrow> real \<Rightarrow> real \<Rightarrow> int" where
  "pair_sign precx a b = np_sign (if \<bar>b - a\<bar> < precx then 0 else b - a)"

definition sign_row :: "real \<Rightarrow> real list \<Rightarrow> nat \<Rightarrow> int list" where
  "sign_row precx x i = map (\<lambda>v. pair_sign precx (x ! i) v) x"

text \<open>
  The tie-group sizes \<^verbatim>\<open>q\<close> and the variance \<^verbatim>\<open>varS\<close> that a call computes, as functions
  of its arguments, in the way \<open>S_stat\<close> gives its \<^verbatim>\<open>S\<close>.
\<close>

definition q_stat :: "real list \<Rightarrow> real list \<Rightarrow> real \<Rightarrow> py_error + int list" where
  "q_stat t x precx =
     (case sgn_matrix (length t) x precx of
        Inl e \<Rightarrow> Inl e
      | Inr sg \<Rightarrow>
          (case fill_value (precx * 1000000) of
             Inl e \<Rightarrow> Inl e
           | Inr d \<Rightarrow> Inr (q_of x precx (ties_of (length t) x sg d))))"

definition varS_stat :: "real list \<Rightarrow> real list \<Rightarrow> real \<Rightarrow> py_error + real" where
  "varS_stat t x precx =
     (case q_stat t x precx of
        Inl e \<Rightarrow> Inl e
      | Inr q \<Rightarrow> Inr (varS_of (length t) q))"

text \<open>A float that is a number between 0 and 1 (NaN and the infinities are not).\<close>

fun in_unit_interval :: "npfloat \<Rightarrow> bool" where
  "in_unit_interval (Fin u) = (0 \<le> u \<and> u \<le> 1)"
| "in_unit_interval NaN = False"
| "in_unit_interval NegInf = False"
| "in_unit_interval PosInf = False"

text \<open>The hypothesis named by each of the six verdict strings of lines 165 to 181.\<close>

definition hypothesis_text :: "string \<Rightarrow> string" where
  "hypothesis_text Ha =
     (if Ha = ''up'' then ''upward trend''
      else if Ha = ''down'' then ''downward trend''
      else ''upward OR downward trend'')"

text \<open>
  An algebraic sigmoid and its inverse: a distribution function with values in \<open>(0, 1)\<close>,
  used in place of the normal one where a closed example needs a concrete \<open>Phi\<close>.
\<close>

definition Phi_alg :: "real \<Rightarrow> real" where
  "Phi_alg z = (1 + z / (1 + \<bar>z\<bar>)) / 2"

definition PhiInv_alg :: "real \<Rightarrow> real" where
  "PhiInv_alg y = (2 * y - 1) / (1 - \<bar>2 * y - 1\<bar>)"

section \<open>The sign loop\<close>

text \<open>
  When \<^verbatim>\<open>x\<close> has the length of \<^verbatim>\<open>t\<close> the loop raises nothing and fills every row; when
  the lengths differ and \<^verbatim>\<open>t\<close> is not empty it raises in its first or second round.
\<close>

lemma sgn_loop_ok:
  "length x = n \<Longrightarrow> \<forall>i\<in>set js. i < n \<Longrightarrow>
   sgn_loop x precx n js sg = Inr (fold (\<lambda>i s. s[i := sign_row precx x i]) js sg)"
proof (induction js arbitrary: sg)
  case Nil
  then show ?case by simp
next
  case (Cons j js)
  then show ?case
    by (simp add: diff_row_def assign_row_def snap_def sign_row_def pair_sign_def o_def)
qed

lemma fold_rows:
  "k \<le> length sg \<Longrightarrow> fold (\<lambda>i s. s[i := f i]) [0..<k] sg = map f [0..<k] @ drop k sg"
proof (induction k)
  case 0
  then show ?case by simp
next
  case (Suc k)
  then have "k < length sg" by simp
  then have "(map f [0..<k] @ drop k sg)[k := f k] = map f [0..<k] @ f k # drop (Suc k) sg"
    by (simp add: list_update_append upd_conv_take_nth_drop)
  with Suc show ?case by simp
qed

lemma sgn_matrix_eq:
  "length x = n \<Longrightarrow> sgn_matrix n x precx = Inr (map (sign_row precx x) [0..<n])"
  by (simp add: sgn_matrix_def sgn_loop_ok fold_rows)

lemma sgn_matrix_mismatch:
  assumes "0 < n" "length x \<noteq> n"
  shows "\<exists>e. sgn_matrix n x precx = Inl e"
proof -
  from assms(1) have u: "[0..<n] = 0 # [Suc 0..<n]" by (simp add: upt_conv_Cons)
  show ?thesis
  proof (cases "length x = 1")
    case True
    with assms have "1 < n" by simp
    then have v: "[Suc 0..<n] = Suc 0 # [Suc (Suc 0)..<n]" by (simp add: upt_conv_Cons)
    from True show ?thesis
      by (simp add: sgn_matrix_def u v diff_row_def assign_row_def snap_def)
  next
    case False
    with assms show ?thesis
      by (simp add: sgn_matrix_def u diff_row_def assign_row_def snap_def)
  qed
qed

section \<open>Evaluation on concrete inputs\<close>

text \<open>The defining equations, as one simplification set for closed terms.\<close>

lemmas ev = test_def test_body_def sgn_matrix_def diff_row_def snap_def np_sign_def assign_row_def
  triu_sum_def fill_diagonal_def zero_rows_def ties_of_def unique_def q_of_def term1_def term2_def
  varS_of_def Zmk_of_def verdict_def linear_fit_def np_corrcoef_def np_cov_def np_std_def np_mean_def
  dev_def mean_r_def p_of_def trunc_int_def fits_int64_def fill_value_def ndtri_def np_ge_def np_sub_def inf_of_sign_def S_stat_def
  q_stat_def varS_stat_def hypothesis_text_def
  upt_rec Let_def mult.assoc power2_eq_square

section \<open>Validation\<close>

lemma linear_fit_mismatch: "length t \<noteq> length x \<Longrightarrow> linear_fit t x = Inl ValueError"
  by (simp add: linear_fit_def np_corrcoef_def)

lemma linear_fit_ok: "length t = length x \<Longrightarrow> \<exists>m c. linear_fit t x = Inr (m, c)"
  by (simp add: linear_fit_def np_corrcoef_def Let_def)

lemma sgn_matrix_empty: "sgn_matrix 0 x precx = Inr []"
  by (simp add: sgn_matrix_def)

lemma test_body_mismatch:
  assumes "length t \<noteq> length x"
  shows "\<exists>e. test_body Phi PhiInv t x pr al h = Inl e"
proof (cases "length t = 0")
  case True
  with assms show ?thesis
    by (simp add: test_body_def sgn_matrix_empty linear_fit_mismatch Let_def split: sum.splits)
next
  case False
  with assms sgn_matrix_mismatch[of "length t" x pr] obtain e where "sgn_matrix (length t) x pr = Inl e"
    by auto
  then show ?thesis by (simp add: test_body_def Let_def)
qed

lemma test_body_sideways:
  "\<exists>e. test_body Phi PhiInv t x pr al ''sideways'' = Inl e"
  by (simp add: test_body_def verdict_def Let_def split: sum.splits option.splits prod.splits)

lemma test_body_sideways_late:
  assumes "length t = length x"
  shows "test_body Phi PhiInv t x pr al ''sideways''
         = Inl (if fits_int64 (trunc_int (pr * 1000000)) then UnboundLocalError ''MK'' else OverflowError)"
proof -
  from linear_fit_ok[OF assms] obtain m c where "linear_fit t x = Inr (m, c)" by blast
  then show ?thesis
    using assms by (simp add: test_body_def verdict_def Let_def sgn_matrix_eq fill_value_def)
qed

text \<open>
  Claim C1, as the code has it. The three assertions come first: \<^verbatim>\<open>precx\<close> zero or missing,
  then \<^verbatim>\<open>alpha\<close> zero or missing, fail with AssertionError whatever \<^verbatim>\<open>t\<close>, \<^verbatim>\<open>x\<close> and the
  other arguments are, so before any numeric work. Nothing checks the range of \<^verbatim>\<open>alpha\<close>
  or the spelling of \<^verbatim>\<open>Ha\<close>, or compares the lengths. The call still fails for
  \<^verbatim>\<open>Ha = "sideways"\<close> and for arrays of different lengths, but later: with equal lengths
  and non-zero \<^verbatim>\<open>precx\<close> and \<^verbatim>\<open>alpha\<close>, \<^verbatim>\<open>"sideways"\<close> fails at the \<^verbatim>\<open>return\<close>, where
  \<^verbatim>\<open>MK\<close> is unbound, unless \<^verbatim>\<open>precx * 1E6\<close> does not fit into 64 bits, when
  \<^verbatim>\<open>np.fill_diagonal\<close> has raised OverflowError before.
\<close>

theorem validation_asserts:
  "test Phi PhiInv t x (Some 0) alpha Ha = Inl (AssertionError ''precx'')
   \<and> test Phi PhiInv t x None alpha Ha = Inl (AssertionError ''precx'')
   \<and> (pr \<noteq> 0 \<longrightarrow> test Phi PhiInv t x (Some pr) (Some 0) Ha = Inl (AssertionError ''alpha''))
   \<and> (pr \<noteq> 0 \<longrightarrow> test Phi PhiInv t x (Some pr) None Ha = Inl (AssertionError ''alpha''))
   \<and> (\<exists>e. test Phi PhiInv t x precx alpha (Some ''sideways'') = Inl e)
   \<and> (pr \<noteq> 0 \<and> al \<noteq> 0 \<and> length t = length x \<longrightarrow>
        test Phi PhiInv t x (Some pr) (Some al) (Some ''sideways'')
          = Inl (if fits_int64 (trunc_int (pr * 1000000)) then UnboundLocalError ''MK''
                 else OverflowError))
   \<and> (length t \<noteq> length x \<longrightarrow> (\<exists>e. test Phi PhiInv t x precx alpha Ha = Inl e))"
proof -
  have a: "\<exists>e. test Phi PhiInv t x precx alpha (Some ''sideways'') = Inl e"
    using test_body_sideways by (simp add: test_def split: option.splits)
  have b: "length t \<noteq> length x \<Longrightarrow> \<exists>e. test Phi PhiInv t x precx alpha Ha = Inl e"
    using test_body_mismatch by (simp add: test_def split: option.splits)
  show ?thesis
    using a b by (simp add: test_def test_body_sideways_late)
qed

theorem validation_asserts_witness:
  "\<forall>Phi PhiInv.
     test Phi PhiInv [0, 1] [0, 1] (Some (1/1000)) (Some 0) (Some ''up'') = Inl (AssertionError ''alpha'')
     \<and> test Phi PhiInv [0, 1] [0, 1] (Some (1/1000)) None (Some ''up'') = Inl (AssertionError ''alpha'')
     \<and> test Phi PhiInv [0, 1] [0, 1] (Some (1/1000)) (Some (1/20)) (Some ''sideways'')
         = Inl (UnboundLocalError ''MK'')
     \<and> test Phi PhiInv [0, 1] [0, 1] (Some 10000000000000) (Some (1/20)) (Some ''sideways'')
         = Inl OverflowError
     \<and> (\<exists>e. test Phi PhiInv [0, 1, 2] [0, 1] (Some (1/1000)) (Some (1/20)) (Some ''up'') = Inl e)"
proof (intro allI)
  fix Phi PhiInv :: "real \<Rightarrow> real"
  have a: "fits_int64 (trunc_int (1/1000 * 1000000))" "\<not> fits_int64 (trunc_int (10000000000000 * 1000000))"
    by (simp_all add: fits_int64_def trunc_int_def)
  show "test Phi PhiInv [0, 1] [0, 1] (Some (1/1000)) (Some 0) (Some ''up'') = Inl (AssertionError ''alpha'')
     \<and> test Phi PhiInv [0, 1] [0, 1] (Some (1/1000)) None (Some ''up'') = Inl (AssertionError ''alpha'')
     \<and> test Phi PhiInv [0, 1] [0, 1] (Some (1/1000)) (Some (1/20)) (Some ''sideways'')
         = Inl (UnboundLocalError ''MK'')
     \<and> test Phi PhiInv [0, 1] [0, 1] (Some 10000000000000) (Some (1/20)) (Some ''sideways'')
         = Inl OverflowError
     \<and> (\<exists>e. test Phi PhiInv [0, 1, 2] [0, 1] (Some (1/1000)) (Some (1/20)) (Some ''up'') = Inl e)"
    using validation_asserts[where Phi=Phi and PhiInv=PhiInv and t="[0, 1]" and x="[0, 1]"
        and alpha="Some (1/20)" and Ha="Some ''up''" and pr="1/1000" and precx="Some (1/1000)" and al="1/20"]
      validation_asserts[where Phi=Phi and PhiInv=PhiInv and t="[0, 1]" and x="[0, 1]"
        and alpha="Some (1/20)" and Ha="Some ''up''" and pr="10000000000000" and precx="Some (1/1000)" and al="1/20"]
      validation_asserts[where Phi=Phi and PhiInv=PhiInv and t="[0, 1, 2]" and x="[0, 1]"
        and alpha="Some (1/20)" and Ha="Some ''up''" and pr="1/1000" and precx="Some (1/1000)" and al="1/20"]
      a
    by simp
qed

text \<open>
  Claim C1 as stated fails: \<^verbatim>\<open>alpha = 1\<close> is accepted and the call returns a result;
  \<^verbatim>\<open>"sideways"\<close> is not rejected by an assertion but, for this \<^verbatim>\<open>precx\<close>, raises
  UnboundLocalError at the end; a shorter \<^verbatim>\<open>x\<close> raises ValueError inside the sign loop.
\<close>

theorem validation_counterexample:
  "(\<forall>Phi PhiInv.
      test Phi PhiInv [0, 1, 2, 3, 4] [0, 1, 2, 3, 4] (Some (1/1000)) (Some 1) (Some ''up'')
        = Inr (''accept Ha := upward trend'', Fin 1, Fin 0, Fin (1 - Phi (9 / sqrt (50/3)))))
   \<and> (\<forall>Phi PhiInv.
      test Phi PhiInv [0, 1, 2, 3, 4] [0, 1, 2, 3, 4] (Some (1/1000)) (Some (1/20)) (Some ''sideways'')
        = Inl (UnboundLocalError ''MK''))
   \<and> (\<forall>Phi PhiInv.
      test Phi PhiInv [0, 1, 2, 3, 4] [0, 1, 2, 3] (Some (1/1000)) (Some (1/20)) (Some ''up'')
        = Inl ValueError)"
  by (simp add: ev)

section \<open>The statistic S\<close>

text \<open>
  With arrays of equal length, \<^verbatim>\<open>S\<close> is the sum of the pair signs over all \<open>i < j\<close>.
\<close>

lemma sum_list_flat: "sum_list (concat xss) = sum_list (map sum_list (xss :: int list list))"
  by (induction xss) simp_all

lemma sign_row_nth: "j < length x \<Longrightarrow> sign_row precx x i ! j = pair_sign precx (x ! i) (x ! j)"
  by (simp add: sign_row_def)

lemma triu_sum_alt:
  "triu_sum n sg = sum_list (map (\<lambda>i. sum_list (map (\<lambda>j. sg ! i ! j) [Suc i..<n])) [0..<n])"
  by (simp add: triu_sum_def sum_list_flat o_def)

lemma triu_sum_rows:
  assumes "length x = n"
  shows "triu_sum n (map (sign_row precx x) [0..<n])
         = sum_list (map (\<lambda>i. sum_list (map (\<lambda>j. pair_sign precx (x ! i) (x ! j)) [Suc i..<n])) [0..<n])"
  using assms unfolding triu_sum_alt
  by (intro arg_cong[where f=sum_list] map_cong) (simp_all add: sign_row_nth)

lemma S_stat_eq:
  "length t = length x \<Longrightarrow>
   S_stat t x precx
     = Inr (sum_list (map (\<lambda>i. sum_list (map (\<lambda>j. pair_sign precx (x ! i) (x ! j)) [Suc i..<length x]))
              [0..<length x]))"
  by (simp add: S_stat_def sgn_matrix_eq triu_sum_rows)

lemma pair_sum_const:
  assumes "\<And>i j. i < j \<Longrightarrow> j < n \<Longrightarrow> f i j = (c::int)"
  shows "2 * sum_list (map (\<lambda>i. sum_list (map (\<lambda>j. f i j) [Suc i..<n])) [0..<n])
         = c * (int n * (int n - 1))"
proof -
  have row: "sum_list (map (\<lambda>j. f i j) [Suc i..<n]) = c * (int n - 1 - int i)" if "i < n" for i
  proof -
    have "sum_list (map (\<lambda>j. f i j) [Suc i..<n]) = sum_list (map (\<lambda>j. c) [Suc i..<n])"
      using assms by (intro arg_cong[where f=sum_list] map_cong) simp_all
    also have "\<dots> = c * (int n - 1 - int i)"
      using that by (simp add: sum_list_triv algebra_simps of_nat_diff)
    finally show ?thesis .
  qed
  have gauss: "2 * sum_list (map (\<lambda>i. c * (int n - 1 - int i)) [0..<k]) = c * (int k * (2 * int n - int k - 1))" for k
    by (induction k) (simp_all add: algebra_simps)
  have "sum_list (map (\<lambda>i. sum_list (map (\<lambda>j. f i j) [Suc i..<n])) [0..<n])
        = sum_list (map (\<lambda>i. c * (int n - 1 - int i)) [0..<n])"
    using row by (intro arg_cong[where f=sum_list] map_cong) simp_all
  then show ?thesis using gauss[of n] by (simp add: algebra_simps)
qed

lemma even_pairs: "even (int n * (int n - 1))"
  by simp

lemma S_stat_const:
  assumes "length t = length x"
    and "\<And>i j. i < j \<Longrightarrow> j < length x \<Longrightarrow> pair_sign precx (x ! i) (x ! j) = c"
  shows "S_stat t x precx = Inr (c * (int (length x) * (int (length x) - 1) div 2))"
proof -
  let ?s = "sum_list (map (\<lambda>i. sum_list (map (\<lambda>j. pair_sign precx (x ! i) (x ! j)) [Suc i..<length x]))
              [0..<length x])"
  have "2 * ?s = c * (int (length x) * (int (length x) - 1))"
    using assms(2) by (rule pair_sum_const)
  moreover from even_pairs[of "length x"] obtain k where k: "int (length x) * (int (length x) - 1) = 2 * k"
    by (rule evenE)
  ultimately have "?s = c * k" by simp
  with k show ?thesis using S_stat_eq[OF assms(1)] by simp
qed



section \<open>The Z-score chain\<close>

text \<open>
  Claim C2 says that the three branches on \<^verbatim>\<open>S\<close> are exhaustive and that \<open>Z = 0\<close> whenever
  \<open>|S| \<le> precx\<close>. The middle branch of the code tests \<^verbatim>\<open>(S - precx) == 0.\<close>, that is
  \<open>S = precx\<close>: no branch applies, and \<^verbatim>\<open>Zmk\<close> stays unbound, exactly when
  \<open>- precx \<le> S < precx\<close>. This is so at \<open>S = 0\<close> with \<open>precx = 0.001\<close>, and the call on
  \<open>x = [3, 5, 3]\<close>, where \<open>S = 0\<close>, raises UnboundLocalError.
\<close>

theorem Zmk_of_unbound:
  "(Zmk_of S precx varS = None) = (real_of_int S - precx < 0 \<and> 0 \<le> real_of_int S + precx)
   \<and> Zmk_of 0 (1/1000) varS = None
   \<and> Zmk_of 1 2 varS = None
   \<and> S_stat [0, 1, 2] [3, 5, 3] (1/1000) = Inr 0
   \<and> test Phi PhiInv [0, 1, 2] [3, 5, 3] (Some (1/1000)) (Some (1/20)) (Some ''up'')
       = Inl (UnboundLocalError ''Zmk'')"
proof -
  have "(Zmk_of S precx varS = None) = (real_of_int S - precx < 0 \<and> 0 \<le> real_of_int S + precx)"
    by (auto simp: Zmk_of_def)
  moreover have "Zmk_of 0 (1/1000) varS = None" "Zmk_of 1 2 varS = None"
    by (simp_all add: Zmk_of_def)
  moreover have "S_stat [0, 1, 2] [3, 5, 3] (1/1000) = Inr 0"
    by (simp add: ev)
  moreover have "test Phi PhiInv [0, 1, 2] [3, 5, 3] (Some (1/1000)) (Some (1/20)) (Some ''up'')
       = Inl (UnboundLocalError ''Zmk'')"
    by (simp add: ev)
  ultimately show ?thesis by blast
qed

lemma Zmk_of_zero: "0 < precx \<Longrightarrow> Zmk_of 0 precx varS = None"
  by (simp add: Zmk_of_def)

lemma fill_value_cases:
  obtains d where "fill_value v = Inr d" "d = trunc_int v" "fits_int64 d"
  | "fill_value v = Inl OverflowError" "\<not> fits_int64 (trunc_int v)"
  by (cases "fits_int64 (trunc_int v)") (simp_all add: fill_value_def)

lemma fill_value_ok:
  assumes "0 < precx" and "precx * 1000000 < 2 ^ 63"
  shows "fill_value (precx * 1000000) = Inr (trunc_int (precx * 1000000))"
proof -
  from assms(1) have t: "trunc_int (precx * 1000000) = \<lfloor>precx * 1000000\<rfloor>"
    by (simp add: trunc_int_def)
  from assms(1) have "0 \<le> \<lfloor>precx * 1000000\<rfloor>" by simp
  moreover from assms(2) have "\<lfloor>precx * 1000000\<rfloor> < 2 ^ 63"
    by (simp add: floor_less_iff)
  ultimately have "fits_int64 (trunc_int (precx * 1000000))"
    unfolding t fits_int64_def by linarith
  then show ?thesis by (simp add: fill_value_def)
qed

lemma test_body_overflow:
  assumes "length t = length x" and "fill_value (precx * 1000000) = Inl e"
  shows "test_body Phi PhiInv t x precx alpha Ha = Inl e"
  using assms by (simp add: test_body_def sgn_matrix_eq Let_def)

lemma test_body_eq:
  assumes "length t = length x" and "fill_value (precx * 1000000) = Inr d"
  shows "test_body Phi PhiInv t x precx alpha Ha =
     (let n = length t; sg = map (sign_row precx x) [0..<n];
          S = triu_sum n sg;
          q = q_of x precx (ties_of n x sg d);
          varS = varS_of n q;
          Zo = Zmk_of S precx varS
      in case verdict PhiInv Ha alpha Zo of
           Inl e \<Rightarrow> Inl e
         | Inr MKo \<Rightarrow>
             (case linear_fit t x of
                Inl e \<Rightarrow> Inl e
              | Inr (m, c) \<Rightarrow>
                  (case MKo of
                     None \<Rightarrow> Inl (UnboundLocalError ''MK'')
                   | Some MK \<Rightarrow>
                       (case Zo of
                          None \<Rightarrow> Inl (UnboundLocalError ''p'')
                        | Some Z \<Rightarrow>
                            (case p_of Phi Ha S precx Z of
                               None \<Rightarrow> Inl (UnboundLocalError ''p'')
                             | Some p \<Rightarrow> Inr (MK, m, c, p))))))"
  using assms by (simp add: test_body_def sgn_matrix_eq Let_def)

lemma S_stat_triu:
  "length t = length x \<Longrightarrow> S_stat t x precx = Inr (triu_sum (length t) (map (sign_row precx x) [0..<length t]))"
  by (simp add: S_stat_def sgn_matrix_eq)

text \<open>
  Claim C3 says that a series whose values are all equal within the tolerance gives
  \<open>S = 0\<close>, \<open>Z = 0\<close> and \<open>p = 0.5\<close>. The code does compute \<open>S = 0\<close>, but then no branch of
  the Z-score chain applies, and with a recognised \<^verbatim>\<open>Ha\<close> the call raises
  UnboundLocalError on \<^verbatim>\<open>Zmk\<close> instead of returning. The tolerance is positive, and
  \<^verbatim>\<open>precx * 1E6\<close> is below \<open>2\<^sup>6\<^sup>3\<close>, so that \<^verbatim>\<open>np.fill_diagonal\<close> does not raise
  OverflowError before the chain is reached.
\<close>

theorem constant_series_unbound:
  assumes "0 < precx" and "alpha \<noteq> 0" and "length t = length x"
    and "\<forall>a\<in>set x. \<forall>b\<in>set x. \<bar>b - a\<bar> < precx"
    and "Ha = ''up'' \<or> Ha = ''down'' \<or> Ha = ''upordown''"
    and "precx * 1000000 < 2 ^ 63"
  shows "S_stat t x precx = Inr 0
       \<and> test Phi PhiInv t x (Some precx) (Some alpha) (Some Ha) = Inl (UnboundLocalError ''Zmk'')"
proof -
  have "pair_sign precx (x ! i) (x ! j) = 0" if "i < j" "j < length x" for i j
    using that assms(4) by (simp add: pair_sign_def np_sign_def)
  from S_stat_const[OF assms(3) this] have S: "S_stat t x precx = Inr 0" by simp
  with S_stat_triu[OF assms(3), of precx]
  have "triu_sum (length t) (map (sign_row precx x) [0..<length t]) = 0" by simp
  then have "test_body Phi PhiInv t x precx alpha Ha = Inl (UnboundLocalError ''Zmk'')"
    using assms(1,5)
    by (auto simp: test_body_eq[OF assms(3) fill_value_ok[OF assms(1,6)]] Let_def Zmk_of_zero verdict_def)
  with S assms(1,2,5) show ?thesis by (auto simp: test_def)
qed

theorem constant_series_unbound_witness:
  "\<forall>Phi PhiInv. S_stat [0, 1, 2] [1, 1, 1] (1/1000) = Inr 0
     \<and> test Phi PhiInv [0, 1, 2] [1, 1, 1] (Some (1/1000)) (Some (1/20)) (Some ''upordown'')
         = Inl (UnboundLocalError ''Zmk'')"
proof (intro allI)
  fix Phi PhiInv :: "real \<Rightarrow> real"
  show "S_stat [0, 1, 2] [1, 1, 1] (1/1000) = Inr 0
     \<and> test Phi PhiInv [0, 1, 2] [1, 1, 1] (Some (1/1000)) (Some (1/20)) (Some ''upordown'')
         = Inl (UnboundLocalError ''Zmk'')"
    using constant_series_unbound[of "1/1000" "1/20" "[0, 1, 2]" "[1, 1, 1]" "''upordown''" Phi PhiInv]
    by simp
qed

section \<open>Calls that return\<close>

text \<open>
  A call returns only when the three arguments are given and non-zero, the arrays have
  equal length and the fill value fits; then \<^verbatim>\<open>Zmk\<close>, \<^verbatim>\<open>MK\<close> and \<^verbatim>\<open>p\<close> were all bound on
  the way.
\<close>

lemma stats_eq:
  assumes "length t = length x" and "fill_value (precx * 1000000) = Inr d"
  shows "q_stat t x precx = Inr (q_of x precx (ties_of (length t) x (map (sign_row precx x) [0..<length t]) d))"
    and "varS_stat t x precx
         = Inr (varS_of (length t) (q_of x precx (ties_of (length t) x (map (sign_row precx x) [0..<length t]) d)))"
  using assms by (simp_all add: q_stat_def varS_stat_def sgn_matrix_eq)

lemma stats_overflow:
  assumes "length t = length x" and "fill_value (precx * 1000000) = Inl e"
  shows "q_stat t x precx = Inl e" and "varS_stat t x precx = Inl e"
  using assms by (simp_all add: q_stat_def varS_stat_def sgn_matrix_eq)

lemma test_body_returns:
  assumes "test_body Phi PhiInv t x pr al h = Inr (MK, m, c, p)"
  obtains S v Z where "length t = length x" "S_stat t x pr = Inr S" "varS_stat t x pr = Inr v"
    "Zmk_of S pr v = Some Z" "verdict PhiInv h al (Some Z) = Inr (Some MK)"
    "linear_fit t x = Inr (m, c)" "p_of Phi h S pr Z = Some p"
proof -
  have len: "length t = length x"
    using assms test_body_mismatch[of t x Phi PhiInv pr al h] by auto
  obtain d where fv: "fill_value (pr * 1000000) = Inr d"
    using assms test_body_overflow[OF len, of pr _ Phi PhiInv al h]
    by (cases "fill_value (pr * 1000000)") auto
  let ?S = "triu_sum (length t) (map (sign_row pr x) [0..<length t])"
  let ?v = "varS_of (length t) (q_of x pr (ties_of (length t) x (map (sign_row pr x) [0..<length t]) d))"
  from assms obtain Z where "Zmk_of ?S pr ?v = Some Z" "verdict PhiInv h al (Some Z) = Inr (Some MK)"
    "linear_fit t x = Inr (m, c)" "p_of Phi h ?S pr Z = Some p"
    by (auto simp: test_body_eq[OF len fv] Let_def split: sum.splits option.splits prod.splits)
  with len show ?thesis
    using that[of ?S ?v Z] by (simp add: S_stat_triu stats_eq[OF len fv])
qed

lemma test_returns:
  assumes "test Phi PhiInv t x precx alpha Ha = Inr (MK, m, c, p)"
  obtains pr al h S v Z where "precx = Some pr" "pr \<noteq> 0" "alpha = Some al" "al \<noteq> 0" "Ha = Some h"
    "length t = length x" "S_stat t x pr = Inr S" "varS_stat t x pr = Inr v"
    "Zmk_of S pr v = Some Z" "verdict PhiInv h al (Some Z) = Inr (Some MK)"
    "linear_fit t x = Inr (m, c)" "p_of Phi h S pr Z = Some p"
proof -
  from assms obtain pr al h where a: "precx = Some pr" "pr \<noteq> 0" "alpha = Some al" "al \<noteq> 0" "Ha = Some h"
    "test_body Phi PhiInv t x pr al h = Inr (MK, m, c, p)"
    by (auto simp: test_def split: option.splits if_splits)
  from test_body_returns[OF a(6)] a(1-5) that show ?thesis by metis
qed

text \<open>
  Claim C5, for a positive tolerance: in a two-sided call with \<open>precx > 0\<close> that returns
  with \<open>S + precx < 0\<close> (the negative region), the p-value is \<open>0.5 * ndtr(Zmk)\<close> with
  \<open>Zmk = (S + 1) / sqrt(varS)\<close>.
\<close>

theorem two_sided_negative_p:
  assumes "test Phi PhiInv t x (Some precx) alpha (Some ''upordown'') = Inr (MK, m, c, p)"
    and "0 < precx" and "S_stat t x precx = Inr S" and "real_of_int S + precx < 0"
  shows "\<exists>v Z. varS_stat t x precx = Inr v \<and> Zmk_of S precx v = Some Z
           \<and> Z = np_div (Fin (real_of_int (S + 1))) (np_sqrt (Fin v))
           \<and> p = np_mul (Fin (1/2)) (ndtr Phi Z)"
proof -
  from test_returns[OF assms(1)] obtain S' v Z where r: "S_stat t x precx = Inr S'"
    "varS_stat t x precx = Inr v" "Zmk_of S' precx v = Some Z" "p_of Phi ''upordown'' S' precx Z = Some p"
    by (metis option.inject)
  from r(1) assms(3) have "S' = S" by simp
  with r assms(2,4) show ?thesis
    by (auto simp: Zmk_of_def p_of_def split: if_splits)
qed

theorem two_sided_negative_p_witness:
  "\<forall>Phi PhiInv. \<exists>MK m c.
     test Phi PhiInv [0, 1, 2, 3, 4, 5, 6] [1, 1, 1, 1, 1, 1, 0] (Some (1/2)) (Some (1/20)) (Some ''upordown'')
       = Inr (MK, m, c, Fin (1/2 * Phi (- (5/4))))
     \<and> S_stat [0, 1, 2, 3, 4, 5, 6] [1, 1, 1, 1, 1, 1, 0] (1/2) = Inr (- 6)
     \<and> varS_stat [0, 1, 2, 3, 4, 5, 6] [1, 1, 1, 1, 1, 1, 0] (1/2) = Inr 16"
proof (intro allI)
  fix Phi PhiInv :: "real \<Rightarrow> real"
  let ?t = "[0, 1, 2, 3, 4, 5, 6] :: real list" and ?x = "[1, 1, 1, 1, 1, 1, 0] :: real list"
  have S: "S_stat ?t ?x (1/2) = Inr (- 6)" by (simp add: ev)
  have v: "varS_stat ?t ?x (1/2) = Inr 16" by (simp add: ev)
  have "\<exists>MK m c p. test Phi PhiInv ?t ?x (Some (1/2)) (Some (1/20)) (Some ''upordown'') = Inr (MK, m, c, p)"
    by (simp add: ev)
  then obtain MK m c p where r: "test Phi PhiInv ?t ?x (Some (1/2)) (Some (1/20)) (Some ''upordown'') = Inr (MK, m, c, p)"
    by blast
  from two_sided_negative_p[OF r _ S] v have "p = Fin (1/2 * Phi (- (5/4)))"
    by simp
  with r S v show "\<exists>MK m c.
     test Phi PhiInv ?t ?x (Some (1/2)) (Some (1/20)) (Some ''upordown'')
       = Inr (MK, m, c, Fin (1/2 * Phi (- (5/4))))
     \<and> S_stat ?t ?x (1/2) = Inr (- 6)
     \<and> varS_stat ?t ?x (1/2) = Inr 16" by blast
qed

text \<open>
  Claim C5 as stated, for every call, fails for a negative \<^verbatim>\<open>precx\<close>, which the assertions
  accept. For \<open>t = [0, 1]\<close>, \<open>x = [0, 0]\<close> and \<open>precx = -1\<close> nothing is snapped, \<open>S = 0\<close>
  and \<open>S + precx < 0\<close>; but \<open>S - precx > 0\<close> is tested first (lines 150 and 194), so
  \<open>Zmk = (S - 1) / sqrt(varS) = -1\<close> and the call returns \<open>p = 0.5 * (1 - ndtr(-1))\<close>,
  which is not \<open>0.5 * ndtr(-1)\<close>: with the sigmoid \<open>Phi_alg\<close> the two are \<open>3/8\<close> and \<open>1/8\<close>.
\<close>

theorem two_sided_negative_p_counterexample:
  "(\<forall>Phi PhiInv. \<exists>MK.
      test Phi PhiInv [0, 1] [0, 0] (Some (- 1)) (Some (1/20)) (Some ''upordown'')
        = Inr (MK, NaN, NaN, Fin (1/2 * (1 - Phi (- 1)))))
   \<and> S_stat [0, 1] [0, 0] (- 1) = Inr 0
   \<and> q_stat [0, 1] [0, 0] (- 1) = Inr [0]
   \<and> varS_stat [0, 1] [0, 0] (- 1) = Inr 1
   \<and> Zmk_of 0 (- 1) 1 = Some (Fin (- 1))
   \<and> test Phi_alg PhiInv_alg [0, 1] [0, 0] (Some (- 1)) (Some (1/20)) (Some ''upordown'')
        = Inr (''reject Ha := upward OR downward trend'', NaN, NaN, Fin (3/8))
   \<and> np_mul (Fin (1/2)) (ndtr Phi_alg (Fin (- 1))) = Fin (1/8)"
  by (simp add: ev Phi_alg_def PhiInv_alg_def)

section \<open>The p-value and the verdict\<close>

lemma Phi_alg_range: "0 \<le> Phi_alg z \<and> Phi_alg z \<le> 1"
proof -
  have pos: "0 < 1 + \<bar>z\<bar>" by simp
  have "- 1 \<le> z / (1 + \<bar>z\<bar>)" "z / (1 + \<bar>z\<bar>) \<le> 1"
    using pos by (simp_all add: pos_le_divide_eq pos_divide_le_eq)
  then show ?thesis by (simp add: Phi_alg_def)
qed

lemma ndtr_range:
  assumes "\<forall>z. 0 \<le> Phi z \<and> Phi z \<le> 1"
  shows "Z = NaN \<and> ndtr Phi Z = NaN \<or> Z \<noteq> NaN \<and> in_unit_interval (ndtr Phi Z)"
  using assms by (cases Z) simp_all

lemma in_unit_complement: "in_unit_interval a \<Longrightarrow> in_unit_interval (np_sub (Fin 1) a)"
  by (cases a) (simp_all add: np_sub_def)

lemma in_unit_half: "in_unit_interval a \<Longrightarrow> in_unit_interval (np_mul (Fin (1/2)) a)"
  by (cases a) simp_all

lemma p_of_cases:
  assumes "p_of Phi h S pr Z = Some p"
  shows "p = np_sub (Fin 1) (ndtr Phi Z) \<or> p = ndtr Phi Z
       \<or> p = np_mul (Fin (1/2)) (np_sub (Fin 1) (ndtr Phi Z))
       \<or> p = Fin (1/2) \<or> p = np_mul (Fin (1/2)) (ndtr Phi Z)"
  using assms by (auto simp: p_of_def split: if_splits)

lemma p_of_range:
  assumes "\<forall>z. 0 \<le> Phi z \<and> Phi z \<le> 1" and "p_of Phi h S pr Z = Some p"
  shows "p = NaN \<or> in_unit_interval p"
proof (cases "Z = NaN")
  case True
  with p_of_cases[OF assms(2)] show ?thesis by (auto simp: np_sub_def)
next
  case False
  with ndtr_range[OF assms(1), of Z] have "in_unit_interval (ndtr Phi Z)" by simp
  with p_of_cases[OF assms(2)] show ?thesis
    by (auto intro: in_unit_complement in_unit_half)
qed

lemma Zmk_of_finite:
  assumes "0 < v" and "Zmk_of S pr v = Some Z"
  shows "\<exists>z. Z = Fin z"
  using assms by (auto simp: Zmk_of_def split: if_splits)

lemma p_of_not_NaN:
  assumes "p_of Phi h S pr (Fin z) = Some p"
  shows "p \<noteq> NaN"
  using assms by (auto simp: p_of_def np_sub_def split: if_splits)

lemma verdict_strings:
  assumes "verdict PhiInv h al Zo = Inr (Some MK)"
  shows "(h = ''up'' \<or> h = ''down'' \<or> h = ''upordown'')
       \<and> (MK = ''accept'' @ '' Ha := '' @ hypothesis_text h \<or> MK = ''reject'' @ '' Ha := '' @ hypothesis_text h)"
  using assms by (auto simp: verdict_def hypothesis_text_def split: if_splits option.splits)

lemma verdict_words:
  assumes "h = ''up'' \<or> h = ''down'' \<or> h = ''upordown''"
    and "MK = ''accept'' @ '' Ha := '' @ hypothesis_text h \<or> MK = ''reject'' @ '' Ha := '' @ hypothesis_text h"
  shows "sublist ''accept'' MK \<noteq> sublist ''reject'' MK" and "sublist (hypothesis_text h) MK"
  using assms by (auto simp: hypothesis_text_def sublist_code)

text \<open>
  In a call that returns, the verdict is \<^verbatim>\<open>accept\<close> or \<^verbatim>\<open>reject\<close>, followed by
  \<^verbatim>\<open> Ha := \<close> and the text of the tested hypothesis; it contains exactly one of the two
  words, and it contains that text. The p-value is a number in \<open>[0, 1]\<close> whenever the
  variance \<^verbatim>\<open>varS\<close> is positive (for a distribution function \<open>Phi\<close> with values in
  \<open>[0, 1]\<close>), and otherwise it can only be such a number or NaN.
\<close>

lemma p_value_and_verdict:
  assumes "\<forall>z. 0 \<le> Phi z \<and> Phi z \<le> 1"
    and "test Phi PhiInv t x precx alpha Ha = Inr (MK, m, c, p)"
  shows "\<exists>pr h v. precx = Some pr \<and> Ha = Some h \<and> varS_stat t x pr = Inr v
     \<and> (p = NaN \<or> in_unit_interval p)
     \<and> (0 < v \<longrightarrow> p \<noteq> NaN)
     \<and> (h = ''up'' \<or> h = ''down'' \<or> h = ''upordown'')
     \<and> (MK = ''accept'' @ '' Ha := '' @ hypothesis_text h \<or> MK = ''reject'' @ '' Ha := '' @ hypothesis_text h)
     \<and> sublist ''accept'' MK \<noteq> sublist ''reject'' MK
     \<and> sublist (hypothesis_text h) MK"
proof -
  from test_returns[OF assms(2)] obtain pr al h S v Z where r:
    "precx = Some pr" "Ha = Some h" "varS_stat t x pr = Inr v" "Zmk_of S pr v = Some Z"
    "verdict PhiInv h al (Some Z) = Inr (Some MK)" "p_of Phi h S pr Z = Some p"
    by metis
  note vs = verdict_strings[OF r(5)]
  have "0 < v \<longrightarrow> p \<noteq> NaN"
    using Zmk_of_finite[OF _ r(4)] p_of_not_NaN r(6) by blast
  with r(1-3) p_of_range[OF assms(1) r(6)] vs verdict_words[of h MK]
  show ?thesis by blast
qed

lemma p_value_and_verdict_example:
  "\<exists>MK m c p.
     test Phi_alg PhiInv_alg [0, 1, 2, 3, 4] [0, 1, 2, 3, 4] (Some (1/1000)) (Some (1/20)) (Some ''upordown'')
       = Inr (MK, m, c, p)
     \<and> in_unit_interval p
     \<and> varS_stat [0, 1, 2, 3, 4] [0, 1, 2, 3, 4] (1/1000) = Inr (50/3)
     \<and> sublist ''accept'' MK \<noteq> sublist ''reject'' MK
     \<and> sublist ''upward OR downward trend'' MK"
proof -
  let ?t = "[0, 1, 2, 3, 4] :: real list"
  have v: "varS_stat ?t ?t (1/1000) = Inr (50/3)" by (simp add: ev)
  have "\<exists>MK m c p. test Phi_alg PhiInv_alg ?t ?t (Some (1/1000)) (Some (1/20)) (Some ''upordown'') = Inr (MK, m, c, p)"
    by (simp add: ev)
  then obtain MK m c p where
    r: "test Phi_alg PhiInv_alg ?t ?t (Some (1/1000)) (Some (1/20)) (Some ''upordown'') = Inr (MK, m, c, p)"
    by blast
  from p_value_and_verdict[OF _ r] Phi_alg_range obtain pr h v' where
    w: "Some (1/1000 :: real) = Some pr" "Some ''upordown'' = Some h" "varS_stat ?t ?t pr = Inr v'"
      "p = NaN \<or> in_unit_interval p" "0 < v' \<longrightarrow> p \<noteq> NaN"
      "sublist ''accept'' MK \<noteq> sublist ''reject'' MK" "sublist (hypothesis_text h) MK"
    by blast
  from w(1) have "pr = 1/1000" by (simp only: option.inject)
  with w(3) v have "v' = 50/3" by simp
  with w(4,5) have "in_unit_interval p" by auto
  moreover from w(2,7) have "sublist ''upward OR downward trend'' MK"
    by (auto simp: hypothesis_text_def)
  ultimately show ?thesis using r v w(6) by blast
qed

text \<open>
  Claim C9 says that the p-value of a call that returns lies in \<open>[0, 1]\<close>, and the
  docstring promises \<^verbatim>\<open>p : scalar, float, greater than zero\<close>. The code counts a tie group
  around every tied value, and the groups overlap, so the correction \<^verbatim>\<open>term2\<close> can exceed
  \<^verbatim>\<open>term1\<close> and the estimated variance is negative. For \<open>t = x = [0, 1, 2, 3]\<close> and
  \<open>precx = 1.5\<close> the group sizes are \<open>[2, 3, 3, 2]\<close>, the variance is \<open>-2/3\<close>, its square
  root is NaN, and the call returns the p-value NaN with the verdict \<^verbatim>\<open>reject\<close>.
\<close>

theorem p_value_nan:
  "\<forall>Phi PhiInv.
     test Phi PhiInv [0, 1, 2, 3] [0, 1, 2, 3] (Some (3/2)) (Some (1/20)) (Some ''upordown'')
       = Inr (''reject Ha := upward OR downward trend'', Fin 1, Fin 0, NaN)
     \<and> S_stat [0, 1, 2, 3] [0, 1, 2, 3] (3/2) = Inr 3
     \<and> q_stat [0, 1, 2, 3] [0, 1, 2, 3] (3/2) = Inr [2, 3, 3, 2]
     \<and> varS_stat [0, 1, 2, 3] [0, 1, 2, 3] (3/2) = Inr (- (2/3))"
  by (simp add: ev)

text \<open>
  When the calls with \<^verbatim>\<open>"up"\<close> and with \<^verbatim>\<open>"down"\<close> both return and \<^verbatim>\<open>S\<close> is outside the
  zero band, the two p-values are \<open>1 - ndtr(Zmk)\<close> and \<open>ndtr(Zmk)\<close> of the same Z-score (or
  both \<open>0.5\<close>): they add up to 1 whenever \<^verbatim>\<open>varS\<close> is positive, and whenever they are
  numbers.
\<close>

lemma one_sided_p_sum:
  assumes "test Phi PhiInv t x (Some precx) alpha (Some ''up'') = Inr (MK1, m1, c1, p1)"
    and "test Phi PhiInv t x (Some precx) alpha (Some ''down'') = Inr (MK2, m2, c2, p2)"
    and "S_stat t x precx = Inr S"
    and "real_of_int S - precx > 0 \<or> real_of_int S + precx < 0"
    and "varS_stat t x precx = Inr v"
  shows "(0 < v \<longrightarrow> np_add p1 p2 = Fin 1) \<and> (p1 \<noteq> NaN \<longrightarrow> np_add p1 p2 = Fin 1)"
proof -
  from test_returns[OF assms(1)] assms(3,5) obtain Z1 where
    a: "Zmk_of S precx v = Some Z1" "p_of Phi ''up'' S precx Z1 = Some p1"
    by (metis option.inject sum.inject(2))
  from test_returns[OF assms(2)] assms(3,5) obtain Z2 where
    b: "Zmk_of S precx v = Some Z2" "p_of Phi ''down'' S precx Z2 = Some p2"
    by (metis option.inject sum.inject(2))
  from a(1) b(1) have "Z2 = Z1" by simp
  with a b have p: "p1 = np_sub (Fin 1) (ndtr Phi Z1) \<and> p2 = ndtr Phi Z1 \<or> p1 = Fin (1/2) \<and> p2 = Fin (1/2)"
    by (auto simp: p_of_def split: if_splits)
  have "p1 \<noteq> NaN \<longrightarrow> np_add p1 p2 = Fin 1"
    using p by (cases Z1) (auto simp: np_sub_def)
  moreover have "0 < v \<longrightarrow> p1 \<noteq> NaN"
    using Zmk_of_finite[OF _ a(1)] p_of_not_NaN a(2) by blast
  ultimately show ?thesis by blast
qed

lemma one_sided_p_sum_example:
  "\<forall>Phi PhiInv. \<exists>MK1 m1 c1 p1 MK2 m2 c2 p2.
     test Phi PhiInv [0, 1, 2, 3, 4] [0, 1, 2, 3, 4] (Some (1/1000)) (Some (1/20)) (Some ''up'')
       = Inr (MK1, m1, c1, p1)
     \<and> test Phi PhiInv [0, 1, 2, 3, 4] [0, 1, 2, 3, 4] (Some (1/1000)) (Some (1/20)) (Some ''down'')
       = Inr (MK2, m2, c2, p2)
     \<and> S_stat [0, 1, 2, 3, 4] [0, 1, 2, 3, 4] (1/1000) = Inr 10
     \<and> varS_stat [0, 1, 2, 3, 4] [0, 1, 2, 3, 4] (1/1000) = Inr (50/3)
     \<and> p1 \<noteq> NaN
     \<and> np_add p1 p2 = Fin 1"
proof (intro allI)
  fix Phi PhiInv :: "real \<Rightarrow> real"
  let ?t = "[0, 1, 2, 3, 4] :: real list"
  have S: "S_stat ?t ?t (1/1000) = Inr 10" by (simp add: ev)
  have v: "varS_stat ?t ?t (1/1000) = Inr (50/3)" by (simp add: ev)
  have "\<exists>MK m c p. test Phi PhiInv ?t ?t (Some (1/1000)) (Some (1/20)) (Some ''up'') = Inr (MK, m, c, p) \<and> p \<noteq> NaN"
    by (simp add: ev)
  then obtain MK1 m1 c1 p1 where
    u: "test Phi PhiInv ?t ?t (Some (1/1000)) (Some (1/20)) (Some ''up'') = Inr (MK1, m1, c1, p1)" "p1 \<noteq> NaN"
    by blast
  have "\<exists>MK m c p. test Phi PhiInv ?t ?t (Some (1/1000)) (Some (1/20)) (Some ''down'') = Inr (MK, m, c, p)"
    by (simp add: ev)
  then obtain MK2 m2 c2 p2 where
    d: "test Phi PhiInv ?t ?t (Some (1/1000)) (Some (1/20)) (Some ''down'') = Inr (MK2, m2, c2, p2)"
    by blast
  from one_sided_p_sum[OF u(1) d S _ v] u(2) have "np_add p1 p2 = Fin 1" by simp
  with u d S v show "\<exists>MK1 m1 c1 p1 MK2 m2 c2 p2.
     test Phi PhiInv ?t ?t (Some (1/1000)) (Some (1/20)) (Some ''up'') = Inr (MK1, m1, c1, p1)
     \<and> test Phi PhiInv ?t ?t (Some (1/1000)) (Some (1/20)) (Some ''down'') = Inr (MK2, m2, c2, p2)
     \<and> S_stat ?t ?t (1/1000) = Inr 10
     \<and> varS_stat ?t ?t (1/1000) = Inr (50/3)
     \<and> p1 \<noteq> NaN
     \<and> np_add p1 p2 = Fin 1" by blast
qed

text \<open>
  Claim C10 says that the p-values of the calls with \<^verbatim>\<open>"up"\<close> and with \<^verbatim>\<open>"down"\<close> add up
  to 1 when \<^verbatim>\<open>S\<close> is outside the zero band. The negative variance of overlapping tie
  groups breaks it: for \<open>t = [0, 1, 2, 3]\<close>, \<open>x = [3, 2, 1, 0]\<close> and \<open>precx = 1.5\<close>,
  \<open>S = -3\<close> is in the negative region, the variance is \<open>-2/3\<close>, the Z-score is NaN, both
  calls return, and both p-values are NaN, against the docstring's
  \<^verbatim>\<open>p : scalar, float, greater than zero\<close>.
\<close>

theorem one_sided_p_nan:
  "\<forall>Phi PhiInv.
     test Phi PhiInv [0, 1, 2, 3] [3, 2, 1, 0] (Some (3/2)) (Some (1/20)) (Some ''up'')
       = Inr (''reject Ha := upward trend'', Fin (- 1), Fin 3, NaN)
     \<and> test Phi PhiInv [0, 1, 2, 3] [3, 2, 1, 0] (Some (3/2)) (Some (1/20)) (Some ''down'')
       = Inr (''reject Ha := downward trend'', Fin (- 1), Fin 3, NaN)
     \<and> S_stat [0, 1, 2, 3] [3, 2, 1, 0] (3/2) = Inr (- 3)
     \<and> q_stat [0, 1, 2, 3] [3, 2, 1, 0] (3/2) = Inr [2, 3, 3, 2]
     \<and> varS_stat [0, 1, 2, 3] [3, 2, 1, 0] (3/2) = Inr (- (2/3))
     \<and> np_add NaN NaN \<noteq> Fin 1"
  by (simp add: ev)

section \<open>Negating the series\<close>

text \<open>
  Negation commutes with the float operations used by the fit, and it negates every pair
  sign, hence \<^verbatim>\<open>S\<close>.
\<close>

lemma inf_of_sign_neg: "inf_of_sign (- a) = np_neg (inf_of_sign a)"
  by (simp add: inf_of_sign_def)

lemma np_neg_neg: "np_neg (np_neg a) = a"
  by (cases a) simp_all

lemma np_div_neg: "np_div (np_neg a) b = np_neg (np_div a b)"
  by (cases a; cases b) (simp_all add: inf_of_sign_neg)

lemma np_mul_neg: "np_mul (np_neg a) b = np_neg (np_mul a b)"
  by (cases a; cases b) (simp_all add: inf_of_sign_neg np_neg_neg)

lemma np_le_neg: "np_le (np_neg a) (np_neg b) = np_le b a"
  by (cases a; cases b) simp_all

lemma np_clip_neg: "np_clip (np_neg a) (- 1) 1 = np_neg (np_clip a (- 1) 1)"
  by (cases a) (auto simp: min_def max_def)

lemma pair_sign_neg: "pair_sign precx (- a) (- b) = - pair_sign precx a b"
proof -
  have e: "\<bar>- b - - a\<bar> = \<bar>b - a\<bar>" by (simp add: abs_if)
  have "np_sign (- d) = - np_sign d" for d by (simp add: np_sign_def)
  from this[of "b - a"] show ?thesis
    unfolding pair_sign_def e by (auto simp: np_sign_def abs_if)
qed

lemma sum_list_neg: "sum_list (map (\<lambda>i. - f i) xs) = - sum_list (map f (xs :: 'a list) :: int list)"
  by (induction xs) simp_all

lemma S_stat_neg:
  assumes "length t = length x" and "S_stat t x precx = Inr S"
  shows "S_stat t (map uminus x) precx = Inr (- S)"
proof -
  have len: "length t = length (map uminus x)" using assms(1) by simp
  have row: "sum_list (map (\<lambda>j. pair_sign precx (map uminus x ! i) (map uminus x ! j)) [Suc i..<length x])
        = - sum_list (map (\<lambda>j. pair_sign precx (x ! i) (x ! j)) [Suc i..<length x])"
    if "i < length x" for i
  proof -
    have "sum_list (map (\<lambda>j. pair_sign precx (map uminus x ! i) (map uminus x ! j)) [Suc i..<length x])
          = sum_list (map (\<lambda>j. - pair_sign precx (x ! i) (x ! j)) [Suc i..<length x])"
      using that by (intro arg_cong[where f=sum_list] map_cong refl) (simp add: pair_sign_neg)
    also have "\<dots> = - sum_list (map (\<lambda>j. pair_sign precx (x ! i) (x ! j)) [Suc i..<length x])"
      by (rule sum_list_neg)
    finally show ?thesis .
  qed
  have "sum_list (map (\<lambda>i. sum_list (map (\<lambda>j. pair_sign precx (map uminus x ! i) (map uminus x ! j))
                [Suc i..<length x])) [0..<length x])
        = sum_list (map (\<lambda>i. - sum_list (map (\<lambda>j. pair_sign precx (x ! i) (x ! j))
                [Suc i..<length x])) [0..<length x])"
    by (intro arg_cong[where f=sum_list] map_cong refl) (simp add: row del: nth_map)
  then show ?thesis
    using assms(2) by (simp add: S_stat_eq[OF len] S_stat_eq[OF assms(1)] sum_list_neg)
qed

text \<open>
  After \<^verbatim>\<open>fill_diagonal\<close> the zero entries sit at the same places for \<open>x\<close> and \<open>-x\<close>, the tied
  values are negated, and each keeps its count: the variance is the same.
\<close>

lemma filled_entry:
  assumes "length x = n" "i < n" "j < n"
  shows "fill_diagonal n (map (sign_row precx x) [0..<n]) d ! i ! j
         = (if j = i then d else pair_sign precx (x ! i) (x ! j))"
  using assms by (simp add: fill_diagonal_def sign_row_def nth_list_update)

lemma zero_rows_cong:
  assumes "\<And>i j. i < n \<Longrightarrow> j < n \<Longrightarrow> (M ! i ! j = 0) = (M' ! i ! j = 0)"
  shows "zero_rows n M = zero_rows n M'"
  unfolding zero_rows_def
  by (intro arg_cong[where f=concat] map_cong refl arg_cong[where f="map _"] filter_cong)
     (simp_all add: assms)

lemma zero_rows_neg:
  assumes "length x = n"
  shows "zero_rows n (fill_diagonal n (map (sign_row precx (map uminus x)) [0..<n]) d)
         = zero_rows n (fill_diagonal n (map (sign_row precx x) [0..<n]) d)"
proof (rule zero_rows_cong)
  fix i j assume ij: "i < n" "j < n"
  have len: "length (map uminus x) = n" using assms by simp
  show "(fill_diagonal n (map (sign_row precx (map uminus x)) [0..<n]) d ! i ! j = 0)
      = (fill_diagonal n (map (sign_row precx x) [0..<n]) d ! i ! j = 0)"
    using ij assms by (simp add: filled_entry[OF len ij] filled_entry[OF assms ij] pair_sign_neg)
qed

lemma zero_rows_bound: "i \<in> set (zero_rows n M) \<Longrightarrow> i < n"
  by (auto simp: zero_rows_def)

lemma ties_of_neg:
  assumes "length x = n"
  shows "set (ties_of n (map uminus x) (map (sign_row precx (map uminus x)) [0..<n]) d)
         = uminus ` set (ties_of n x (map (sign_row precx x) [0..<n]) d)"
proof -
  let ?rows = "zero_rows n (fill_diagonal n (map (sign_row precx x) [0..<n]) d)"
  have "map ((!) (map uminus x)) ?rows = map (\<lambda>i. - x ! i) ?rows"
    using assms by (intro map_cong refl) (auto dest: zero_rows_bound)
  then show ?thesis
    by (simp add: ties_of_def unique_def zero_rows_neg[OF assms] image_image)
qed

lemma ties_of_distinct: "distinct (ties_of n x sg d)"
  by (simp add: ties_of_def unique_def)

lemma term2_as_sum:
  assumes "distinct ties"
  shows "term2 (q_of x precx ties)
         = (\<Sum>v\<in>set ties. (\<lambda>k. k * (k - 1) * (2 * k + 5)) (int (length (filter (\<lambda>u. \<bar>u - v\<bar> < precx) x))))"
  using assms by (simp add: term2_def q_of_def o_def sum_list_distinct_conv_sum_set)

lemma count_neg:
  fixes v precx :: real
  shows "length (filter (\<lambda>u. \<bar>u - (- v)\<bar> < precx) (map uminus x)) = length (filter (\<lambda>u. \<bar>u - v\<bar> < precx) x)"
proof -
  have "\<bar>- u - - v\<bar> = \<bar>u - v\<bar>" for u :: real by (simp add: abs_if)
  then have "filter (\<lambda>u. \<bar>u - (- v)\<bar> < precx) (map uminus x)
             = map uminus (filter (\<lambda>u. \<bar>u - v\<bar> < precx) x)"
    unfolding filter_map o_def by simp
  then show ?thesis by (simp only: length_map)
qed

lemma term2_neg:
  assumes "length x = n"
  shows "term2 (q_of (map uminus x) precx (ties_of n (map uminus x) (map (sign_row precx (map uminus x)) [0..<n]) d))
         = term2 (q_of x precx (ties_of n x (map (sign_row precx x) [0..<n]) d))"
proof -
  let ?T = "set (ties_of n x (map (sign_row precx x) [0..<n]) d)"
  let ?g = "\<lambda>k :: int. k * (k - 1) * (2 * k + 5)"
  have inj: "inj_on uminus ?T" by (simp add: inj_on_def)
  have "term2 (q_of (map uminus x) precx (ties_of n (map uminus x) (map (sign_row precx (map uminus x)) [0..<n]) d))
        = (\<Sum>w\<in>uminus ` ?T. ?g (int (length (filter (\<lambda>u. \<bar>u - w\<bar> < precx) (map uminus x)))))"
    by (simp only: term2_as_sum[OF ties_of_distinct] ties_of_neg[OF assms])
  also have "\<dots> = (\<Sum>v\<in>?T. ?g (int (length (filter (\<lambda>u. \<bar>u - (- v)\<bar> < precx) (map uminus x)))))"
    by (simp only: sum.reindex[OF inj] o_def)
  also have "\<dots> = (\<Sum>v\<in>?T. ?g (int (length (filter (\<lambda>u. \<bar>u - v\<bar> < precx) x))))"
    by (simp only: count_neg)
  also have "\<dots> = term2 (q_of x precx (ties_of n x (map (sign_row precx x) [0..<n]) d))"
    by (simp only: term2_as_sum[OF ties_of_distinct])
  finally show ?thesis .
qed

lemma varS_stat_neg:
  assumes "length t = length x"
  shows "varS_stat t (map uminus x) precx = varS_stat t x precx"
proof -
  have len: "length t = length (map uminus x)" using assms by simp
  from assms have lx: "length x = length t" by simp
  show ?thesis
  proof (cases "fill_value (precx * 1000000)")
    case (Inl e)
    then show ?thesis by (simp add: stats_overflow[OF len] stats_overflow[OF assms])
  next
    case (Inr d)
    from term2_neg[OF lx, of precx d] show ?thesis
      by (simp add: stats_eq[OF len Inr] stats_eq[OF assms Inr] varS_of_def)
  qed
qed

text \<open>The fit of \<open>(t, -x)\<close> has the negated slope, and the Z-score of \<open>-x\<close> is the negated one.\<close>

lemma sum_list_uminus_real: "sum_list (map uminus xs) = - sum_list (xs :: real list)"
  by (induction xs) simp_all

lemma dev_neg: "dev (map uminus x) = map uminus (dev x)"
  by (simp add: dev_def mean_r_def sum_list_uminus_real o_def)

lemma prod_sum_neg:
  "length a = length b \<Longrightarrow>
   sum_list (map (\<lambda>(u, v). u * v) (zip a (map uminus b)))
   = - sum_list (map (\<lambda>(u, v). u * v) (zip a (b :: real list)))"
  by (induction a b rule: list_induct2) simp_all

lemma prod_sum_neg_both:
  "sum_list (map (\<lambda>(u, v). u * v) (zip (map uminus b) (map uminus b)))
   = sum_list (map (\<lambda>(u, v). u * v) (zip b (b :: real list)))"
  by (induction b) simp_all

lemma np_cov_neg_right:
  assumes "length a = length b"
  shows "np_cov a (map uminus b) = np_neg (np_cov a b)"
proof -
  have "length (dev a) = length (dev b)" using assms by (simp add: dev_def)
  from prod_sum_neg[OF this] show ?thesis
    by (simp add: np_cov_def dev_neg np_mul_neg[symmetric])
qed

lemma np_cov_neg_both: "np_cov (map uminus b) (map uminus b) = np_cov b b"
  by (simp add: np_cov_def dev_neg prod_sum_neg_both)

lemma np_std_neg: "np_std (map uminus x) = np_std x"
  by (simp add: np_std_def dev_neg o_def)

lemma np_corrcoef_neg:
  assumes "np_corrcoef t x = Inr r"
  shows "np_corrcoef t (map uminus x) = Inr (np_neg r)"
proof -
  from assms have len: "length t = length x" and r: "r = np_clip (np_div (np_div (np_cov t x) (np_sqrt (np_cov t t))) (np_sqrt (np_cov x x))) (- 1) 1"
    by (auto simp: np_corrcoef_def split: if_splits)
  show ?thesis
    using len by (simp add: np_corrcoef_def r np_cov_neg_right np_cov_neg_both np_div_neg np_clip_neg)
qed

lemma linear_fit_neg:
  assumes "linear_fit t x = Inr (m, c)"
  shows "\<exists>c'. linear_fit t (map uminus x) = Inr (np_neg m, c')"
proof -
  from assms obtain r where r: "np_corrcoef t x = Inr r" and m: "m = np_mul r (np_div (np_std x) (np_std t))"
    by (auto simp: linear_fit_def Let_def split: sum.splits)
  show ?thesis
    by (simp add: linear_fit_def Let_def np_corrcoef_neg[OF r] m np_std_neg np_mul_neg)
qed

lemma Zmk_of_neg:
  assumes "0 < precx" and "Zmk_of S precx v = Some Z1" and "Zmk_of (- S) precx v = Some Z2"
  shows "Z2 = np_neg Z1"
proof -
  have e: "(1 - a) / b = - ((a - 1) / b)" "(- a - 1) / b = - ((a + 1) / b)" for a b :: real
    by (simp_all add: diff_divide_distrib add_divide_distrib)
  from assms show ?thesis
    by (auto simp: Zmk_of_def inf_of_sign_def e split: if_splits)
qed

text \<open>
  Claim C6, for a positive tolerance: when \<open>precx > 0\<close> and \<^verbatim>\<open>test(t, x, .., "up")\<close> and
  \<^verbatim>\<open>test(t, -x, .., "down")\<close> both return, either both accept or both reject their
  hypothesis, and the slope of the second is the negated slope of the first.
\<close>

theorem mirror_verdicts:
  assumes "0 < precx"
    and "test Phi PhiInv t x (Some precx) alpha (Some ''up'') = Inr (MK1, m1, c1, p1)"
    and "test Phi PhiInv t (map uminus x) (Some precx) alpha (Some ''down'') = Inr (MK2, m2, c2, p2)"
  shows "(MK1 = ''accept Ha := upward trend'' \<and> MK2 = ''accept Ha := downward trend''
          \<or> MK1 = ''reject Ha := upward trend'' \<and> MK2 = ''reject Ha := downward trend'')
       \<and> m2 = np_neg m1"
proof -
  from test_returns[OF assms(2)] obtain al S v Z1 where
    u: "alpha = Some al" "length t = length x" "S_stat t x precx = Inr S" "varS_stat t x precx = Inr v"
       "Zmk_of S precx v = Some Z1" "verdict PhiInv ''up'' al (Some Z1) = Inr (Some MK1)"
       "linear_fit t x = Inr (m1, c1)"
    by (metis option.inject)
  from test_returns[OF assms(3)] u(1) obtain S' v' Z2 where
    d: "S_stat t (map uminus x) precx = Inr S'" "varS_stat t (map uminus x) precx = Inr v'"
       "Zmk_of S' precx v' = Some Z2" "verdict PhiInv ''down'' al (Some Z2) = Inr (Some MK2)"
       "linear_fit t (map uminus x) = Inr (m2, c2)"
    by (metis option.inject)
  from S_stat_neg[OF u(2,3)] d(1) have S': "S' = - S" by simp
  from varS_stat_neg[OF u(2), of precx] u(4) d(2) have v': "v' = v" by simp
  from Zmk_of_neg[OF assms(1) u(5)] d(3) S' v' have Z: "Z2 = np_neg Z1" by simp
  from linear_fit_neg[OF u(7)] d(5) have "m2 = np_neg m1" by auto
  moreover from u(6) d(4) have
    "MK1 = ''accept Ha := upward trend'' \<and> MK2 = ''accept Ha := downward trend''
     \<or> MK1 = ''reject Ha := upward trend'' \<and> MK2 = ''reject Ha := downward trend''"
    by (auto simp: verdict_def Z np_le_neg np_ge_def split: if_splits)
  ultimately show ?thesis by blast
qed

theorem mirror_verdicts_witness:
  "\<forall>Phi PhiInv. \<exists>MK1 p1 MK2 p2.
     test Phi PhiInv [0, 1, 2, 3, 4] [0, 1, 2, 3, 4] (Some (1/1000)) (Some (1/20)) (Some ''up'')
       = Inr (MK1, Fin 1, Fin 0, p1)
     \<and> test Phi PhiInv [0, 1, 2, 3, 4] (map uminus [0, 1, 2, 3, 4]) (Some (1/1000)) (Some (1/20)) (Some ''down'')
       = Inr (MK2, Fin (- 1), Fin 0, p2)
     \<and> (MK1 = ''accept Ha := upward trend'' \<and> MK2 = ''accept Ha := downward trend''
          \<or> MK1 = ''reject Ha := upward trend'' \<and> MK2 = ''reject Ha := downward trend'')"
proof (intro allI)
  fix Phi PhiInv :: "real \<Rightarrow> real"
  let ?t = "[0, 1, 2, 3, 4] :: real list"
  have "\<exists>MK p. test Phi PhiInv ?t ?t (Some (1/1000)) (Some (1/20)) (Some ''up'') = Inr (MK, Fin 1, Fin 0, p)"
    by (simp add: ev)
  then obtain MK1 p1 where
    u: "test Phi PhiInv ?t ?t (Some (1/1000)) (Some (1/20)) (Some ''up'') = Inr (MK1, Fin 1, Fin 0, p1)"
    by blast
  have "\<exists>MK p. test Phi PhiInv ?t (map uminus ?t) (Some (1/1000)) (Some (1/20)) (Some ''down'')
          = Inr (MK, Fin (- 1), Fin 0, p)"
    by (simp add: ev)
  then obtain MK2 p2 where
    d: "test Phi PhiInv ?t (map uminus ?t) (Some (1/1000)) (Some (1/20)) (Some ''down'')
          = Inr (MK2, Fin (- 1), Fin 0, p2)"
    by blast
  from mirror_verdicts[OF _ u d]
  have "MK1 = ''accept Ha := upward trend'' \<and> MK2 = ''accept Ha := downward trend''
          \<or> MK1 = ''reject Ha := upward trend'' \<and> MK2 = ''reject Ha := downward trend''"
    by simp
  with u d show "\<exists>MK1 p1 MK2 p2.
     test Phi PhiInv ?t ?t (Some (1/1000)) (Some (1/20)) (Some ''up'') = Inr (MK1, Fin 1, Fin 0, p1)
     \<and> test Phi PhiInv ?t (map uminus ?t) (Some (1/1000)) (Some (1/20)) (Some ''down'')
       = Inr (MK2, Fin (- 1), Fin 0, p2)
     \<and> (MK1 = ''accept Ha := upward trend'' \<and> MK2 = ''accept Ha := downward trend''
          \<or> MK1 = ''reject Ha := upward trend'' \<and> MK2 = ''reject Ha := downward trend'')"
    by blast
qed

text \<open>
  Claim C6 as stated, for every tolerance on which both calls succeed, fails for a
  negative \<^verbatim>\<open>precx\<close>, which the assertions accept. For \<open>t = [0, 1]\<close>, \<open>x = [0, 0]\<close> and
  \<open>precx = -1\<close> both calls compute \<open>S = 0\<close> and \<open>Zmk = -1\<close>: the Z-score is not negated,
  because \<open>S - precx > 0\<close> holds for \<open>x\<close> and for \<open>-x\<close>. With \<^verbatim>\<open>alpha = 0.2\<close> the call with
  \<^verbatim>\<open>"up"\<close> accepts when \<open>ndtri(0.8) \<le> -1\<close> and the call with \<^verbatim>\<open>"down"\<close> when
  \<open>ndtri(0.8) \<le> 1\<close>; the quantile is about \<open>0.84\<close>, so the first rejects and the second
  accepts. The same happens with \<^verbatim>\<open>alpha = 0.3\<close>, shown with the sigmoid \<open>PhiInv_alg\<close>,
  whose quantile is \<open>2/3\<close> there.
\<close>

theorem mirror_verdicts_counterexample:
  "(\<forall>Phi PhiInv.
      test Phi PhiInv [0, 1] [0, 0] (Some (- 1)) (Some (1/5)) (Some ''up'')
        = Inr (if PhiInv (4/5) \<le> - 1 then ''accept Ha := upward trend'' else ''reject Ha := upward trend'',
               NaN, NaN, Fin (1 - Phi (- 1)))
    \<and> test Phi PhiInv [0, 1] (map uminus [0, 0]) (Some (- 1)) (Some (1/5)) (Some ''down'')
        = Inr (if PhiInv (4/5) \<le> 1 then ''accept Ha := downward trend'' else ''reject Ha := downward trend'',
               NaN, NaN, Fin (Phi (- 1))))
   \<and> test Phi_alg PhiInv_alg [0, 1] [0, 0] (Some (- 1)) (Some (3/10)) (Some ''up'')
        = Inr (''reject Ha := upward trend'', NaN, NaN, Fin (3/4))
   \<and> test Phi_alg PhiInv_alg [0, 1] (map uminus [0, 0]) (Some (- 1)) (Some (3/10)) (Some ''down'')
        = Inr (''accept Ha := downward trend'', NaN, NaN, Fin (1/4))
   \<and> PhiInv_alg (1 - 3/10) = 2/3"
  by (simp add: ev Phi_alg_def PhiInv_alg_def)

section \<open>Tie groups\<close>

text \<open>
  When \<^verbatim>\<open>precx * 1E6\<close> is at least 1 the diagonal is filled with a non-zero integer, every
  zero of the matrix is off the diagonal, and each tied value has at least two values of
  \<^verbatim>\<open>x\<close> within \<^verbatim>\<open>precx\<close> of it.
\<close>

lemma one_in_filter:
  assumes "i < length xs" "P (xs ! i)"
  shows "1 \<le> length (filter P xs)"
proof -
  from assms have "xs ! i \<in> set (filter P xs)" by simp
  then have "0 < length (filter P xs)" by (rule length_pos_if_in_set)
  then show ?thesis by linarith
qed

lemma two_in_filter_ordered:
  assumes "i < j" "j < length xs" "P (xs ! i)" "P (xs ! j)"
  shows "2 \<le> length (filter P xs)"
proof -
  from assms(2) have split: "xs = take j xs @ xs ! j # drop (Suc j) xs"
    by (rule id_take_nth_drop)
  from assms have "1 \<le> length (filter P (take j xs))"
    by (intro one_in_filter[of i]) simp_all
  moreover have "length (filter P xs)
      = length (filter P (take j xs)) + length (filter P (xs ! j # drop (Suc j) xs))"
    by (subst split) (simp only: filter_append length_append)
  ultimately show ?thesis using assms(4) by simp
qed

lemma two_in_filter:
  assumes "i \<noteq> j" "i < length xs" "j < length xs" "P (xs ! i)" "P (xs ! j)"
  shows "2 \<le> length (filter P xs)"
proof (cases "i < j")
  case True
  with assms show ?thesis by (intro two_in_filter_ordered[of i j]) simp_all
next
  case False
  with assms have "j < i" by simp
  with assms show ?thesis by (intro two_in_filter_ordered[of j i]) simp_all
qed

lemma pair_sign_zero: "0 < precx \<Longrightarrow> (pair_sign precx a b = 0) = (\<bar>b - a\<bar> < precx)"
  by (auto simp: pair_sign_def np_sign_def)

lemma zero_rows_mem:
  "i \<in> set (zero_rows n M) \<Longrightarrow> \<exists>j<n. i < n \<and> M ! i ! j = 0"
  by (auto simp: zero_rows_def)

lemma tie_groups_ge_2:
  assumes "1 \<le> precx * 1000000" and "length t = length x" and "q_stat t x precx = Inr q"
  shows "\<forall>k\<in>set q. 2 \<le> k"
proof
  fix k assume k: "k \<in> set q"
  let ?n = "length t" and ?d = "trunc_int (precx * 1000000)"
  let ?M = "fill_diagonal ?n (map (sign_row precx x) [0..<?n]) ?d"
  from assms(1) have pos: "0 < precx" by simp
  from assms(1) have f: "1 \<le> \<lfloor>precx * 1000000\<rfloor>" by simp
  from assms(1) have "?d = \<lfloor>precx * 1000000\<rfloor>" by (simp add: trunc_int_def)
  with f have d: "?d \<noteq> 0" by linarith
  from assms(2) have len: "length x = ?n" by simp
  have "fill_value (precx * 1000000) = Inr ?d"
  proof (rule fill_value_cases[of "precx * 1000000"])
    fix d' assume "fill_value (precx * 1000000) = Inr d'" "d' = ?d"
    then show ?thesis by simp
  next
    assume "fill_value (precx * 1000000) = Inl OverflowError"
    from stats_overflow(1)[OF assms(2) this] assms(3) show ?thesis by simp
  qed
  with assms(3) have "q = q_of x precx (ties_of ?n x (map (sign_row precx x) [0..<?n]) ?d)"
    by (simp add: stats_eq[OF assms(2)])
  with k obtain i where i: "i \<in> set (zero_rows ?n ?M)"
    and kv: "k = int (length (filter (\<lambda>u. \<bar>u - x ! i\<bar> < precx) x))"
    by (auto simp: q_of_def ties_of_def unique_def)
  from zero_rows_mem[OF i] obtain j where j: "j < ?n" "i < ?n" "?M ! i ! j = 0" by blast
  from j d have ne: "j \<noteq> i" and "pair_sign precx (x ! i) (x ! j) = 0"
    by (auto simp: filled_entry[OF len j(2,1)] split: if_splits)
  with pos have tie: "\<bar>x ! j - x ! i\<bar> < precx" by (simp add: pair_sign_zero)
  have "2 \<le> length (filter (\<lambda>u. \<bar>u - x ! i\<bar> < precx) x)"
    using ne j len pos tie by (intro two_in_filter[of i j]) simp_all
  with kv show "2 \<le> k" by simp
qed

text \<open>
  Claim C8 says that every tie group has at least two members. The diagonal is filled with
  \<^verbatim>\<open>precx * 1E6\<close> cast to an integer; for \<^verbatim>\<open>precx\<close> below \<open>1e-6\<close> that is 0, the diagonal
  itself is found by \<^verbatim>\<open>np.where(sgn == 0.)\<close>, and every value of \<^verbatim>\<open>x\<close> becomes a tie group.
  For \<open>x = [0, 1]\<close> and \<open>precx = 1e-7\<close> the group sizes are \<open>[1, 1]\<close>; with
  \<open>precx = 1e-3\<close> there is no group. (A group of one adds 0 to \<^verbatim>\<open>term2\<close>, so the variance
  is the same.)
\<close>

theorem tie_group_of_one:
  "q_stat [0, 1] [0, 1] (1/10000000) = Inr [1, 1]
   \<and> trunc_int (1/10000000 * 1000000) = 0
   \<and> varS_stat [0, 1] [0, 1] (1/10000000) = Inr 1
   \<and> q_stat [0, 1] [0, 1] (1/1000) = Inr []
   \<and> varS_stat [0, 1] [0, 1] (1/1000) = Inr 1"
  by (simp add: ev)

section \<open>The caller's arrays\<close>

text \<open>
  Every write of the call goes to an object the call itself has created: the store only
  grows at its end, and what was in it before stays as it was.
\<close>

lemma prefix_new_array: "prefix s0 s \<Longrightarrow> prefix s0 (fst (new_array s a))"
  by (simp add: new_array_def)

lemma prefix_update: "prefix s0 s \<Longrightarrow> length s0 \<le> r \<Longrightarrow> prefix s0 (s[r := a])"
  by (auto simp: prefix_def list_update_append)

lemma prefix_length: "prefix s0 s \<Longrightarrow> length s0 \<le> length s"
  by (auto simp: prefix_def)

lemma sgn_step_frame:
  assumes "prefix s0 s" and "length s0 \<le> rsgn"
  shows "prefix s0 (fst (sgn_step s rx rsgn precx n i))"
proof -
  have a: "prefix s0 (s @ [b])" for b using assms(1) by simp
  have b: "prefix s0 ((s @ [b])[length s := c])" for b c
    by (rule prefix_update[OF a prefix_length[OF assms(1)]])
  have c: "prefix s0 ((s @ [b])[length s := c, rsgn := d])" for b c d
    by (rule prefix_update[OF b assms(2)])
  show ?thesis
    using assms(1) a b c
    by (simp add: sgn_step_def new_array_def Let_def split: sum.splits)
qed

lemma sgn_loop_store_frame:
  assumes "prefix s0 s" and "length s0 \<le> rsgn"
  shows "prefix s0 (fst (sgn_loop_store s rx rsgn precx n js))"
  using assms
proof (induction js arbitrary: s)
  case Nil
  then show ?case by simp
next
  case (Cons j js)
  obtain s' r where st: "sgn_step s rx rsgn precx n j = (s', r)" by (cases "sgn_step s rx rsgn precx n j")
  with sgn_step_frame[OF Cons.prems, of rx precx n j] have p: "prefix s0 s'" by simp
  show ?case
  proof (cases r)
    case (Inl e)
    with st p show ?thesis by simp
  next
    case (Inr u)
    with st Cons.IH[OF p Cons.prems(2)] show ?thesis by simp
  qed
qed

lemma q_step_frame:
  assumes "prefix s0 s" and "length s0 \<le> rq"
  shows "prefix s0 (fst (q_step s rx rties rq precx k))"
  using assms by (simp add: q_step_def prefix_update split: sum.splits)

lemma q_loop_store_frame:
  assumes "prefix s0 s" and "length s0 \<le> rq"
  shows "prefix s0 (fst (q_loop_store s rx rties rq precx ks))"
  using assms
proof (induction ks arbitrary: s)
  case Nil
  then show ?case by simp
next
  case (Cons k ks)
  obtain s' r where st: "q_step s rx rties rq precx k = (s', r)" by (cases "q_step s rx rties rq precx k")
  with q_step_frame[OF Cons.prems, of rx rties precx k] have p: "prefix s0 s'" by simp
  show ?case
  proof (cases r)
    case (Inl e)
    with st p show ?thesis by simp
  next
    case (Inr u)
    with st Cons.IH[OF p Cons.prems(2)] show ?thesis by simp
  qed
qed

lemma ties_phase_frame:
  assumes "prefix s0 s" and "length s0 \<le> rsgn"
  shows "prefix s0 (fst (ties_phase s rx rsgn n precx S))"
proof -
  have u: "prefix s0 (s[rsgn := b])" for b
    using assms by (rule prefix_update)
  have ext: "prefix s0 (s[rsgn := b] @ zs)" for b zs
    using u by simp
  have q: "prefix s0 (fst (q_loop_store (s[rsgn := b] @ zs) rx rties (Suc (Suc (Suc (length s)))) precx ks))"
    for b zs rties ks
    using prefix_length[OF assms(1)] by (intro q_loop_store_frame ext) simp
  have q': "prefix s0 w" if "q_loop_store (s[rsgn := b] @ zs) rx rties (Suc (Suc (Suc (length s)))) precx ks = (w, r)"
    for b zs rties ks w r
    using q[of b zs rties ks] that by simp
  show ?thesis
    using assms(1) u ext
    by (auto simp: ties_phase_def new_array_def Let_def split: sum.splits prod.splits intro: q')
qed

lemma sign_phase_frame: "prefix s (fst (sign_phase s rt rx precx))"
proof (cases "float_array s rt")
  case (Inl e)
  then show ?thesis by (simp add: sign_phase_def)
next
  case (Inr t)
  let ?n = "length t"
  let ?s1 = "s @ [IntMat (replicate ?n (replicate ?n 0))]"
  obtain s2 r where lp: "sgn_loop_store ?s1 rx (length s) precx ?n [0..<?n] = (s2, r)"
    by (cases "sgn_loop_store ?s1 rx (length s) precx ?n [0..<?n]")
  have "prefix s (fst (sgn_loop_store ?s1 rx (length s) precx ?n [0..<?n]))"
    by (intro sgn_loop_store_frame) simp_all
  with lp have p2: "prefix s s2" by simp
  have "prefix s (fst (ties_phase s2 rx (length s) ?n precx S))" for S
    using p2 by (intro ties_phase_frame) simp_all
  with Inr lp p2 show ?thesis
    by (simp add: sign_phase_def new_array_def Let_def split: sum.splits)
qed

text \<open>
  The store model computes what the value model computes: the sign loop first.
\<close>

lemma float_array_nth: "float_array s r = Inr v \<Longrightarrow> r < length s \<and> s ! r = FloatArr v"
  by (auto simp: float_array_def split: if_splits ndarray.splits)

lemma int_matrix_nth: "int_matrix s r = Inr v \<Longrightarrow> r < length s \<and> s ! r = IntMat v"
  by (auto simp: int_matrix_def split: if_splits ndarray.splits)

lemma float_array_prefix:
  assumes "prefix s0 s" and "float_array s0 r = Inr v"
  shows "float_array s r = Inr v"
proof -
  from assms(1) obtain zs where "s = s0 @ zs" by (auto simp: prefix_def)
  with float_array_nth[OF assms(2)] show ?thesis
    by (simp add: float_array_def nth_append)
qed

lemma sgn_step_sim:
  assumes "float_array s rx = Inr x" and "int_matrix s rsgn = Inr sg"
  shows "case diff_row x i of
           Inl e \<Rightarrow> snd (sgn_step s rx rsgn precx n i) = Inl e
         | Inr tmp \<Rightarrow>
             (case assign_row n (map np_sign (snap precx tmp)) of
                Inl e \<Rightarrow> snd (sgn_step s rx rsgn precx n i) = Inl e
              | Inr r \<Rightarrow> snd (sgn_step s rx rsgn precx n i) = Inr ()
                  \<and> int_matrix (fst (sgn_step s rx rsgn precx n i)) rsgn = Inr (sg[i := r]))"
proof -
  from int_matrix_nth[OF assms(2)] have r: "rsgn < length s" "s ! rsgn = IntMat sg" by simp_all
  have m: "int_matrix ((s @ [b])[length s := c]) rsgn = Inr sg" for b c
    using r by (simp add: int_matrix_def nth_append)
  have m': "int_matrix ((s @ [b])[length s := c, rsgn := IntMat w]) rsgn = Inr w" for b c w
    using r by (simp add: int_matrix_def)
  show ?thesis
    using assms(1) m m'
    by (simp add: sgn_step_def new_array_def Let_def float_array_def split: sum.splits)
qed

lemma sgn_loop_store_sim:
  assumes "prefix s0 s" and "length s0 \<le> rsgn" and "float_array s0 rx = Inr x"
    and "int_matrix s rsgn = Inr sg"
  shows "case sgn_loop x precx n js sg of
           Inl e \<Rightarrow> snd (sgn_loop_store s rx rsgn precx n js) = Inl e
         | Inr sg' \<Rightarrow> snd (sgn_loop_store s rx rsgn precx n js) = Inr ()
             \<and> int_matrix (fst (sgn_loop_store s rx rsgn precx n js)) rsgn = Inr sg'"
  using assms(1,4)
proof (induction js arbitrary: s sg)
  case Nil
  then show ?case by simp
next
  case (Cons j js)
  note fx = float_array_prefix[OF Cons.prems(1) assms(3)]
  obtain s' r where st: "sgn_step s rx rsgn precx n j = (s', r)" by (cases "sgn_step s rx rsgn precx n j")
  with sgn_step_frame[OF Cons.prems(1) assms(2), of rx precx n j] have p: "prefix s0 s'" by simp
  show ?case
  proof (cases "diff_row x j")
    case (Inl e)
    with sgn_step_sim[OF fx Cons.prems(2), where i=j and precx=precx and n=n] st show ?thesis by simp
  next
    case d: (Inr tmp)
    show ?thesis
    proof (cases "assign_row n (map np_sign (snap precx tmp))")
      case (Inl e)
      with d sgn_step_sim[OF fx Cons.prems(2), where i=j and precx=precx and n=n] st show ?thesis by simp
    next
      case (Inr row)
      with d sgn_step_sim[OF fx Cons.prems(2), where i=j and precx=precx and n=n] st
      have r: "r = Inr ()" "int_matrix s' rsgn = Inr (sg[j := row])" by simp_all
      from st r(1) have e: "sgn_loop_store s rx rsgn precx n (j # js) = sgn_loop_store s' rx rsgn precx n js"
        by simp
      from d Inr have e': "sgn_loop x precx n (j # js) sg = sgn_loop x precx n js (sg[j := row])"
        by simp
      from Cons.IH[OF p r(2)] show ?thesis unfolding e e' .
    qed
  qed
qed

text \<open>Then the tie groups: the loop over \<^verbatim>\<open>range(p)\<close> fills \<^verbatim>\<open>q\<close> with the counts.\<close>

lemma int_array_nth: "int_array s r = Inr v \<Longrightarrow> r < length s \<and> s ! r = IntArr v"
  by (auto simp: int_array_def split: if_splits ndarray.splits)

lemma q_step_sim:
  assumes "float_array s rx = Inr x" and "float_array s rties = Inr ties" and "int_array s rq = Inr q"
    and "k < length ties"
  shows "q_step s rx rties rq precx k
         = (s[rq := IntArr (q[k := int (length (filter (\<lambda>u. \<bar>u - ties ! k\<bar> < precx) x))])], Inr ())"
  using assms by (simp add: q_step_def)

lemma float_array_update:
  assumes "float_array s r = Inr v" and "int_array s rq = Inr q"
  shows "float_array (s[rq := IntArr w]) r = Inr v"
proof -
  from float_array_nth[OF assms(1)] int_array_nth[OF assms(2)] have "r \<noteq> rq" by auto
  with float_array_nth[OF assms(1)] show ?thesis by (simp add: float_array_def)
qed

lemma int_array_update:
  assumes "int_array s rq = Inr q"
  shows "int_array (s[rq := IntArr w]) rq = Inr w"
  using int_array_nth[OF assms] by (simp add: int_array_def)

lemma q_loop_store_sim:
  assumes "float_array s rx = Inr x" and "float_array s rties = Inr ties" and "int_array s rq = Inr q"
    and "\<forall>k\<in>set ks. k < length ties"
  shows "snd (q_loop_store s rx rties rq precx ks) = Inr ()
       \<and> int_array (fst (q_loop_store s rx rties rq precx ks)) rq
           = Inr (fold (\<lambda>k q. q[k := int (length (filter (\<lambda>u. \<bar>u - ties ! k\<bar> < precx) x))]) ks q)"
  using assms
proof (induction ks arbitrary: s q)
  case Nil
  then show ?case by simp
next
  case (Cons k ks)
  let ?q' = "q[k := int (length (filter (\<lambda>u. \<bar>u - ties ! k\<bar> < precx) x))]"
  let ?s' = "s[rq := IntArr ?q']"
  from Cons.prems have st: "q_step s rx rties rq precx k = (?s', Inr ())"
    by (intro q_step_sim) simp_all
  have "float_array ?s' rx = Inr x" "float_array ?s' rties = Inr ties" "int_array ?s' rq = Inr ?q'"
    using Cons.prems by (simp_all add: float_array_update int_array_update)
  from Cons.IH[OF this] Cons.prems(4) st show ?case by simp
qed

lemma q_fold_eq:
  "fold (\<lambda>k q. q[k := f (ties ! k)]) [0..<length ties] (replicate (length ties) 0) = map f ties"
proof -
  have "fold (\<lambda>k q. q[k := f (ties ! k)]) [0..<length ties] (replicate (length ties) 0)
        = map (\<lambda>k. f (ties ! k)) [0..<length ties]"
    by (simp add: fold_rows)
  also have "\<dots> = map f (map ((!) ties) [0..<length ties])" by simp
  also have "\<dots> = map f ties" by (simp only: map_nth)
  finally show ?thesis .
qed

lemma ties_phase_sim:
  assumes "float_array s rx = Inr x" and "int_matrix s rsgn = Inr sg"
  shows "snd (ties_phase s rx rsgn n precx S)
         = (case fill_value (precx * 1000000) of
              Inl e \<Rightarrow> Inl e
            | Inr d \<Rightarrow> Inr (S, q_of x precx (ties_of n x sg d)))"
proof (cases "fill_value (precx * 1000000)")
  case (Inl e)
  with assms(2) show ?thesis by (simp add: ties_phase_def)
next
  case (Inr d)
  from float_array_nth[OF assms(1)] int_matrix_nth[OF assms(2)]
  have rx: "rx < length s" "s ! rx = FloatArr x" and rs: "rsgn < length s" "s ! rsgn = IntMat sg"
    and ne: "rx \<noteq> rsgn"
    by auto
  let ?sg' = "fill_diagonal n sg d"
  let ?ties = "unique (map (\<lambda>i. x ! i) (zero_rows n ?sg'))"
  let ?s4 = "s[rsgn := IntMat ?sg'] @ [IndexArr (zero_rows n ?sg'), IndexArr (zero_cols n ?sg'),
               FloatArr ?ties, IntArr (replicate (length ?ties) 0)]"
  let ?rties = "Suc (Suc (length s))" and ?rq = "Suc (Suc (Suc (length s)))"
  have m: "int_matrix (s[rsgn := IntMat ?sg']) rsgn = Inr ?sg'"
    using rs by (simp add: int_matrix_def)
  have fx2: "float_array (s[rsgn := IntMat ?sg'] @ [a, b]) rx = Inr x" for a b
    using rx ne by (simp add: float_array_def nth_append)
  have fx: "float_array ?s4 rx = Inr x"
    using rx ne by (simp add: float_array_def nth_append)
  have ft: "float_array ?s4 ?rties = Inr ?ties"
    by (simp add: float_array_def nth_append)
  have iq: "int_array ?s4 ?rq = Inr (replicate (length ?ties) 0)"
    by (simp add: int_array_def nth_append)
  from q_loop_store_sim[OF fx ft iq, of "[0..<length ?ties]" precx]
  have lp: "snd (q_loop_store ?s4 rx ?rties ?rq precx [0..<length ?ties]) = Inr ()"
    "int_array (fst (q_loop_store ?s4 rx ?rties ?rq precx [0..<length ?ties])) ?rq
       = Inr (q_of x precx ?ties)"
    using q_fold_eq[where f="\<lambda>v. int (length (filter (\<lambda>u. \<bar>u - v\<bar> < precx) x))" and ties="?ties"]
    by (simp_all add: q_of_def)
  obtain s5 r where s5: "q_loop_store ?s4 rx ?rties ?rq precx [0..<length ?ties] = (s5, r)"
    by (cases "q_loop_store ?s4 rx ?rties ?rq precx [0..<length ?ties]")
  with lp have "r = Inr ()" "int_array s5 ?rq = Inr (q_of x precx ?ties)" by simp_all
  with s5 m fx2 assms(2) Inr show ?thesis
    by (simp add: ties_phase_def new_array_def Let_def ties_of_def)
qed

text \<open>
  And the whole call: started on a store that holds \<^verbatim>\<open>t\<close> and \<^verbatim>\<open>x\<close>, the store model returns
  what the value model \<open>test\<close> returns on them.
\<close>

lemma sign_phase_sim:
  assumes "float_array s rt = Inr t" and "float_array s rx = Inr x"
  shows "snd (sign_phase s rt rx precx)
         = (case sgn_matrix (length t) x precx of
              Inl e \<Rightarrow> Inl e
            | Inr sg \<Rightarrow>
                (case fill_value (precx * 1000000) of
                   Inl e \<Rightarrow> Inl e
                 | Inr d \<Rightarrow> Inr (triu_sum (length t) sg, q_of x precx (ties_of (length t) x sg d))))"
proof -
  let ?n = "length t"
  let ?z = "replicate ?n (replicate ?n (0::int))"
  let ?s1 = "s @ [IntMat ?z]"
  have p1: "prefix s ?s1" by simp
  have m1: "int_matrix ?s1 (length s) = Inr ?z" by (simp add: int_matrix_def)
  obtain s2 r where lp: "sgn_loop_store ?s1 rx (length s) precx ?n [0..<?n] = (s2, r)"
    by (cases "sgn_loop_store ?s1 rx (length s) precx ?n [0..<?n]")
  have "prefix s (fst (sgn_loop_store ?s1 rx (length s) precx ?n [0..<?n]))"
    by (intro sgn_loop_store_frame) simp_all
  with lp have p2: "prefix s s2" by simp
  note fx2 = float_array_prefix[OF p2 assms(2)]
  note sim = sgn_loop_store_sim[OF p1 order_refl assms(2) m1, of precx ?n "[0..<?n]"]
  show ?thesis
  proof (cases "sgn_matrix ?n x precx")
    case (Inl e)
    with sim lp have "r = Inl e" by (simp add: sgn_matrix_def)
    with Inl lp assms(1) show ?thesis
      by (simp add: sign_phase_def new_array_def Let_def)
  next
    case (Inr sg)
    with sim lp have r: "r = Inr ()" "int_matrix s2 (length s) = Inr sg" by (simp_all add: sgn_matrix_def)
    from ties_phase_sim[OF fx2 r(2)] r Inr lp assms(1) show ?thesis
      by (simp add: sign_phase_def new_array_def Let_def)
  qed
qed

lemma test_tail_eq:
  "sgn_matrix (length t) x pr = Inr sg \<Longrightarrow> fill_value (pr * 1000000) = Inr d \<Longrightarrow>
   test_tail Phi PhiInv t x pr al h (triu_sum (length t) sg) (q_of x pr (ties_of (length t) x sg d))
   = test_body Phi PhiInv t x pr al h"
  by (simp add: test_tail_def test_body_def Let_def)

lemma test_store_refines:
  assumes "float_array s rt = Inr t" and "float_array s rx = Inr x"
  shows "snd (test_store Phi PhiInv s rt rx precx alpha Ha) = test Phi PhiInv t x precx alpha Ha"
proof -
  have main: "snd (case sign_phase s rt rx pr of
                 (s', Inl e) \<Rightarrow> (s', Inl e)
               | (s', Inr (S, q)) \<Rightarrow>
                   (case float_array s' rt of
                      Inl e \<Rightarrow> (s', Inl e)
                    | Inr t \<Rightarrow>
                        (case float_array s' rx of
                           Inl e \<Rightarrow> (s', Inl e)
                         | Inr x \<Rightarrow> (s', test_tail Phi PhiInv t x pr al h S q))))
              = test_body Phi PhiInv t x pr al h" for pr al h
  proof -
    obtain s' r where sp: "sign_phase s rt rx pr = (s', r)" by (cases "sign_phase s rt rx pr")
    with sign_phase_frame[of s rt rx pr] have p: "prefix s s'" by simp
    note ft = float_array_prefix[OF p assms(1)] and fx = float_array_prefix[OF p assms(2)]
    show ?thesis
    proof (cases "sgn_matrix (length t) x pr")
      case (Inl e)
      with sign_phase_sim[OF assms, of pr] sp have "r = Inl e" by simp
      with sp Inl show ?thesis by (simp add: test_body_def)
    next
      case sg: (Inr sg)
      show ?thesis
      proof (cases "fill_value (pr * 1000000)")
        case (Inl e)
        with sg sign_phase_sim[OF assms, of pr] sp have "r = Inl e" by simp
        with sp sg Inl show ?thesis by (simp add: test_body_def Let_def)
      next
        case (Inr d)
        with sg sign_phase_sim[OF assms, of pr] sp
        have "r = Inr (triu_sum (length t) sg, q_of x pr (ties_of (length t) x sg d))" by simp
        with sp ft fx test_tail_eq[OF sg Inr] show ?thesis by simp
      qed
    qed
  qed
  show ?thesis
    using main by (simp add: test_store_def test_def split: option.splits)
qed

text \<open>
  An example run of lines 123 to 142: the new objects are \<^verbatim>\<open>sgn\<close> (with its diagonal
  overwritten), the three snapped \<^verbatim>\<open>tmp\<close> arrays, \<^verbatim>\<open>i\<close>, \<^verbatim>\<open>j\<close>, \<^verbatim>\<open>ties\<close> and \<^verbatim>\<open>q\<close>; and
  the same run when \<^verbatim>\<open>t\<close> and \<^verbatim>\<open>x\<close> are one object.
\<close>

lemmas ev_store = sign_phase_def ties_phase_def sgn_step_def q_step_def new_array_def
  float_array_def int_matrix_def int_array_def zero_cols_def

lemma sign_phase_example:
  "sign_phase [FloatArr [0, 1, 2], FloatArr [3, 4, 9]] 0 1 (3/2)
   = ([FloatArr [0, 1, 2], FloatArr [3, 4, 9],
       IntMat [[1500000, 0, 1], [0, 1500000, 1], [- 1, - 1, 1500000]],
       FloatArr [0, 0, 6], FloatArr [0, 0, 5], FloatArr [- 6, - 5, 0],
       IndexArr [0, 1], IndexArr [1, 0], FloatArr [3, 4], IntArr [2, 2]],
      Inr (2, [2, 2]))"
  by (simp add: ev ev_store)

lemma sign_phase_example_alias:
  "sign_phase [FloatArr [3, 4, 9]] 0 0 (3/2)
   = ([FloatArr [3, 4, 9],
       IntMat [[1500000, 0, 1], [0, 1500000, 1], [- 1, - 1, 1500000]],
       FloatArr [0, 0, 6], FloatArr [0, 0, 5], FloatArr [- 6, - 5, 0],
       IndexArr [0, 1], IndexArr [1, 0], FloatArr [3, 4], IntArr [2, 2]],
      Inr (2, [2, 2]))"
  by (simp add: ev ev_store)

text \<open>
  Claim C7: after a call of \<^verbatim>\<open>test\<close>, whether it returns or raises, the store begins with the
  store before the call: every array that existed then, \<^verbatim>\<open>t\<close> and \<^verbatim>\<open>x\<close> among them, is
  unchanged, also when \<^verbatim>\<open>t\<close> and \<^verbatim>\<open>x\<close> are the same object. The working matrix \<^verbatim>\<open>sgn\<close> and
  its overwritten diagonal live in an object created by the call.
\<close>

theorem arrays_unchanged:
  "prefix s (fst (test_store Phi PhiInv s rt rx precx alpha Ha))"
proof -
  have main: "prefix s (fst (case sign_phase s rt rx pr of
                 (s', Inl e) \<Rightarrow> (s', Inl e)
               | (s', Inr (S, q)) \<Rightarrow>
                   (case float_array s' rt of
                      Inl e \<Rightarrow> (s', Inl e)
                    | Inr t \<Rightarrow>
                        (case float_array s' rx of
                           Inl e \<Rightarrow> (s', Inl e)
                         | Inr x \<Rightarrow> (s', test_tail Phi PhiInv t x pr al h S q)))))" for pr al h
  proof -
    obtain s' r where sp: "sign_phase s rt rx pr = (s', r)" by (cases "sign_phase s rt rx pr")
    with sign_phase_frame[of s rt rx pr] have "prefix s s'" by simp
    with sp show ?thesis by (simp split: sum.splits prod.splits)
  qed
  show ?thesis
    using main by (simp add: test_store_def split: option.splits)
qed

end
